theory Spec2Isabelle
  imports Complex_Main "HOL-Library.Sublist"
begin

section \<open>The Watsonx provider (src/providers/watsonx-provider.ts)\<close>

text \<open>
  A JavaScript string is a sequence of UTF-16 code units; \<open>length\<close>, \<open>slice\<close> and
  \<open>startsWith\<close> count code units. Strings are modelled as lists with one element per
  code unit, so \<open>s.slice(n)\<close> for \<open>n \<ge> 0\<close> is \<open>drop n s\<close> (an \<open>n\<close> beyond the
  length gives the empty string), \<open>s.slice(0, n)\<close> is \<open>take n s\<close> and \<open>s.length\<close> is
  \<open>length s\<close>. The elements are \<open>char\<close>s; nothing below depends on the alphabet beyond
  the literals of the source. JavaScript numbers that hold counts and timestamps are
  integers; prices, costs and the temperature are exact reals (the rounding of doubles
  is not modelled).

  The asynchronous body of \<open>streamWatsonx\<close> runs against an environment that answers
  every awaited call: each \<open>fetch\<close> and each \<open>reader.read()\<close> resolves or rejects,
  and a response body ends after finitely many chunks. An abort through
  \<open>options.signal\<close> is such a rejection.
\<close>

subsection \<open>String helpers\<close>

abbreviation newline :: char where
  "newline \<equiv> CHR 0x0A"

text \<open>\<open>String.prototype.trim\<close>: white space and line terminators that a \<open>char\<close> can hold.\<close>

definition is_space :: "char \<Rightarrow> bool" where
  "is_space c = (c \<in> set [CHR 0x09, CHR 0x0A, CHR 0x0B, CHR 0x0C, CHR 0x0D, CHR 0x20, CHR 0xA0])"

definition trim :: "string \<Rightarrow> string" where
  "trim s = rev (dropWhile is_space (rev (dropWhile is_space s)))"

text \<open>\<open>Array.prototype.join(sep)\<close>.\<close>

fun js_join :: "string \<Rightarrow> string list \<Rightarrow> string" where
  "js_join sep [] = []"
| "js_join sep [x] = x"
| "js_join sep (x # y # ys) = x @ sep @ js_join sep (y # ys)"

text \<open>\<open>s.split("\n")\<close>: the pieces between line feeds; never an empty list.\<close>

fun split_newline :: "string \<Rightarrow> string list" where
  "split_newline [] = [[]]"
| "split_newline (c # cs) =
     (if c = newline then [] # split_newline cs
      else (case split_newline cs of
              [] \<Rightarrow> [[c]]
            | l # ls \<Rightarrow> (c # l) # ls))"

definition startsWith :: "string \<Rightarrow> string \<Rightarrow> bool" where
  "startsWith s p = (take (length p) s = p)"

subsection \<open>Errors\<close>

text \<open>
  Every \<open>throw\<close> of the source, and every rejection or runtime exception that can reach
  the outer \<open>catch\<close>, is a value. The source renders each as \<open>error.message\<close>;
  the model keeps the error itself.
\<close>

datatype error =
    MissingApiKey
  | MissingProjectId
  | FetchRejected string
  | IamExchangeFailed nat string
  | InvalidJson
  | WatsonxApiError nat string
  | NullBody
  | ReadRejected string
  | NotAFunction

subsection \<open>Credential cache: \<open>getIamToken\<close>\<close>

record TokenCache =
  token :: string
  expiresAt :: int

text \<open>
  What the identity endpoint does with one token request: \<open>fetch\<close> rejects, the status
  is not ok (with the body text, \<open>None\<close> when reading it fails), the body of an ok
  response is not JSON, or the response carries \<open>access_token\<close> and \<open>expires_in\<close>.
\<close>

datatype iam_reply =
    IamRejected string
  | IamNotOk nat "string option"
  | IamBadJson
  | IamOk string int

subsection \<open>Conversation context and \<open>buildWatsonxPrompt\<close>\<close>

datatype content_block = Text string | NonText string

datatype content = Plain string | Blocks "content_block list"

datatype role = User | Assistant | ToolResult

record message =
  msg_role :: role
  msg_content :: content

record Context =
  systemPrompt :: "string option"
  messages :: "message list"

text \<open>\<open>.filter(c => c.type === "text").map(c => c.text).join("\n")\<close>\<close>

fun text_of :: "content_block \<Rightarrow> string option" where
  "text_of (Text t) = Some t"
| "text_of (NonText _) = None"

definition joined_text :: "content_block list \<Rightarrow> string" where
  "joined_text cs = js_join [newline] (List.map_filter text_of cs)"

text \<open>
  One turn of the loop over \<open>context.messages\<close>: the new \<open>parts\<close>. An assistant
  message is given to \<open>.filter\<close> without the \<open>typeof\<close> test of the user branch: on a
  plain string, which has no \<open>filter\<close> method, that call throws a TypeError.
\<close>

definition push_message :: "message \<Rightarrow> string list \<Rightarrow> error + string list" where
  "push_message msg parts =
     (case msg_role msg of
        User \<Rightarrow>
          (let content = (case msg_content msg of Plain s \<Rightarrow> s | Blocks cs \<Rightarrow> joined_text cs)
           in Inr (parts @ [''<|user|>'' @ [newline] @ content @ [newline] @ ''<|end|>'']))
      | Assistant \<Rightarrow>
          (case msg_content msg of
             Plain s \<Rightarrow> Inl NotAFunction
           | Blocks cs \<Rightarrow>
               Inr (parts @ [''<|assistant|>'' @ [newline] @ joined_text cs @ [newline] @ ''<|end|>'']))
      | ToolResult \<Rightarrow> Inr parts)"

fun push_messages :: "message list \<Rightarrow> string list \<Rightarrow> error + string list" where
  "push_messages [] parts = Inr parts"
| "push_messages (msg # msgs) parts =
     (case push_message msg parts of
        Inl e \<Rightarrow> Inl e
      | Inr parts' \<Rightarrow> push_messages msgs parts')"

definition system_parts :: "Context \<Rightarrow> string list" where
  "system_parts ctx =
     (case systemPrompt ctx of
        None \<Rightarrow> []
      | Some sp \<Rightarrow>
          if trim sp \<noteq> [] then [''<|system|>'' @ [newline] @ sp @ [newline] @ ''<|end|>'']
          else [])"

definition buildWatsonxPrompt :: "Context \<Rightarrow> error + string" where
  "buildWatsonxPrompt ctx =
     (case push_messages (messages ctx) (system_parts ctx) of
        Inl e \<Rightarrow> Inl e
      | Inr parts \<Rightarrow> Inr (js_join [newline] (parts @ [''<|assistant|>'' @ [newline]])))"

subsection \<open>The output message and the channel's events\<close>

record cost_breakdown =
  cost_input :: real
  cost_output :: real
  cost_cacheRead :: real
  cost_cacheWrite :: real
  cost_total :: real

record usage =
  usage_input :: int
  usage_output :: int
  usage_cacheRead :: int
  usage_cacheWrite :: int
  usage_totalTokens :: int
  usage_cost :: cost_breakdown

datatype stop_reason = Stop | StopError

record assistant_message =
  content :: "content_block list"
  api :: string
  provider :: string
  model :: string
  usage :: usage
  stopReason :: stop_reason
  errorMessage :: "error option"
  timestamp :: int

text \<open>
  The events pushed on the stream. The \<open>partial\<close> field of the non-terminal events is a
  reference to the live output message, not a copy, and is left out; the terminal
  events carry the message as it is when they are pushed, after which nothing changes it.
\<close>

datatype event =
    Start
  | TextStart nat
  | TextDelta nat string
  | TextEnd nat string
  | Done assistant_message
  | Error assistant_message

subsection \<open>Model, options and the generation request\<close>

record pricing =
  price_input :: real
  price_output :: real
  price_cacheRead :: real
  price_cacheWrite :: real

record model_info =
  model_id :: string
  model_api :: string
  model_provider :: string
  model_baseUrl :: "string option"
  model_cost :: "pricing option"

datatype decoding_method = Greedy | Sample

record parameters =
  decoding_method :: "decoding_method option"
  top_p :: "real option"
  top_k :: "int option"
  repetition_penalty :: "real option"
  stop_sequences :: "string list option"

text \<open>
  \<open>WatsonxStreamOptions\<close>; an absent \<open>options\<close> argument is the record with every
  field \<open>None\<close>. The abort signal acts through the replies of the environment below.
\<close>

record stream_options =
  opt_apiKey :: "string option"
  opt_projectId :: "string option"
  opt_maxTokens :: "int option"
  opt_temperature :: "real option"
  opt_headers :: "(string \<times> string) list option"
  opt_parameters :: "parameters option"

record generation_request =
  req_url :: string
  req_headers :: "(string \<times> string) list"
  req_model_id :: string
  req_input :: string
  req_project_id :: string
  req_max_new_tokens :: int
  req_temperature :: real
  req_parameters :: "parameters option"

text \<open>
  The generation endpoint's answer: \<open>fetch\<close> rejects, the status is not ok, the body is
  null, or the body delivers chunks (already decoded to text) and then ends, normally
  (\<open>None\<close>) or by a rejected \<open>read\<close>.
\<close>

datatype generation_reply =
    GenRejected string
  | GenNotOk nat "string option"
  | GenNoBody
  | GenStream "string list" "string option"

subsection \<open>Parsed frames\<close>

record result =
  generated_text :: "string option"
  generated_token_count :: "int option"
  input_token_count :: "int option"
  stop_reason :: "string option"

record payload =
  results :: "result list option"

text \<open>
  \<open>JSON.parse\<close> followed by the cast to the payload type is a parameter of the model:
  the typed payload, or \<open>None\<close> when \<open>JSON.parse\<close> throws and the inner \<open>catch\<close> skips
  the line. Parsed values outside the declared type are not modelled.
\<close>

type_synonym parser = "string \<Rightarrow> payload option"

subsection \<open>The environment and the trace of one invocation\<close>

text \<open>
  The process environment, the three readings of \<open>Date.now()\<close> (when the output message
  is created, at the cache test of \<open>getIamToken\<close>, and after the token response) and the
  two endpoints.
\<close>

record env =
  WATSONX_API_KEY :: "string option"
  WATSONX_PROJECT_ID :: "string option"
  now_created :: int
  now_checked :: int
  now_stored :: int
  iam :: "string \<Rightarrow> iam_reply"
  generation :: "generation_request \<Rightarrow> generation_reply"

text \<open>
  What one invocation does, in order: each awaited network call once it has settled,
  each \<open>reader.read()\<close> with the chunk it delivered, the release of the reader,
  and each event pushed on the channel.
\<close>

datatype action =
    IamFetch string
  | GenFetch generation_request
  | Read "string option"
  | ReleaseLock
  | Emit event

subsection \<open>\<open>getIamToken\<close>\<close>

definition cacheKey :: "string \<Rightarrow> string" where
  "cacheKey apiKey = take 16 apiKey"

text \<open>
  The part of \<open>getIamToken\<close> after the cache test: one POST to the identity endpoint,
  then either a \<open>throw\<close> or the store under the cache key. \<open>expires_in\<close> is in seconds,
  \<open>Date.now()\<close> in milliseconds.
\<close>

definition exchangeToken ::
  "env \<Rightarrow> (string \<rightharpoonup> TokenCache) \<Rightarrow> string
     \<Rightarrow> action list \<times> (string \<rightharpoonup> TokenCache) \<times> (error + string)" where
  "exchangeToken e tokenCache apiKey =
     (case iam e apiKey of
        IamRejected m \<Rightarrow> ([IamFetch apiKey], tokenCache, Inl (FetchRejected m))
      | IamNotOk status body \<Rightarrow>
          ([IamFetch apiKey], tokenCache,
           Inl (IamExchangeFailed status (case body of None \<Rightarrow> ''Unknown error'' | Some t \<Rightarrow> t)))
      | IamBadJson \<Rightarrow> ([IamFetch apiKey], tokenCache, Inl InvalidJson)
      | IamOk access_token expires_in \<Rightarrow>
          ([IamFetch apiKey],
           tokenCache(cacheKey apiKey \<mapsto>
             \<lparr>token = access_token, expiresAt = now_stored e + expires_in * 1000\<rparr>),
           Inr access_token))"

definition getIamToken ::
  "env \<Rightarrow> (string \<rightharpoonup> TokenCache) \<Rightarrow> string
     \<Rightarrow> action list \<times> (string \<rightharpoonup> TokenCache) \<times> (error + string)" where
  "getIamToken e tokenCache apiKey =
     (case tokenCache (cacheKey apiKey) of
        None \<Rightarrow> exchangeToken e tokenCache apiKey
      | Some cached \<Rightarrow>
          if expiresAt cached > now_checked e + 300000
          then ([], tokenCache, Inr (token cached))
          else exchangeToken e tokenCache apiKey)"

subsection \<open>The SSE loop of \<open>streamWatsonx\<close>\<close>

text \<open>
  The variables the loop changes besides \<open>buffer\<close>: \<open>fullText\<close>, \<open>startedText\<close> and the
  output message.
\<close>

record reader_state =
  fullText :: string
  startedText :: bool
  output_msg :: assistant_message

text \<open>\<open>parsed.results?.[0]\<close>\<close>

definition first_result :: "payload \<Rightarrow> result option" where
  "first_result parsed =
     (case results parsed of
        None \<Rightarrow> None
      | Some rs \<Rightarrow> (case rs of [] \<Rightarrow> None | r # _ \<Rightarrow> Some r))"

text \<open>
  The \<open>if (result?.generated_text)\<close> block. An absent or empty string is falsy.
  \<open>contentIndex\<close> is the constant 0; the text block it names exists once
  \<open>startedText\<close> is set.
\<close>

definition on_generated_text :: "result option \<Rightarrow> reader_state \<Rightarrow> event list \<times> reader_state" where
  "on_generated_text res st =
     (case (case res of None \<Rightarrow> None | Some r \<Rightarrow> generated_text r) of
        None \<Rightarrow> ([], st)
      | Some gt \<Rightarrow>
          if gt = [] then ([], st)
          else
            (let newText = drop (length (fullText st)) gt in
             if newText = [] then ([], st)
             else
               (let (evs, st1) =
                      (if \<not> startedText st
                       then ([TextStart 0],
                             st\<lparr>startedText := True,
                                output_msg := (output_msg st)\<lparr>content := content (output_msg st) @ [Text []]\<rparr>\<rparr>)
                       else ([], st));
                    st2 = st1\<lparr>fullText := gt\<rparr>;
                    st3 = st2\<lparr>output_msg := (output_msg st2)\<lparr>content := (content (output_msg st2))[0 := Text (fullText st2)]\<rparr>\<rparr>
                in (evs @ [TextDelta 0 newText], st3))))"

text \<open>The two counter updates: an absent count and the number 0 are both falsy.\<close>

definition on_input_token_count :: "result option \<Rightarrow> reader_state \<Rightarrow> reader_state" where
  "on_input_token_count res st =
     (case (case res of None \<Rightarrow> None | Some r \<Rightarrow> input_token_count r) of
        None \<Rightarrow> st
      | Some n \<Rightarrow>
          if n = 0 then st
          else st\<lparr>output_msg := (output_msg st)\<lparr>usage := (usage (output_msg st))\<lparr>usage_input := n\<rparr>\<rparr>\<rparr>)"

definition on_generated_token_count :: "result option \<Rightarrow> reader_state \<Rightarrow> reader_state" where
  "on_generated_token_count res st =
     (case (case res of None \<Rightarrow> None | Some r \<Rightarrow> generated_token_count r) of
        None \<Rightarrow> st
      | Some n \<Rightarrow>
          if n = 0 then st
          else st\<lparr>output_msg := (output_msg st)\<lparr>usage := (usage (output_msg st))\<lparr>usage_output := n\<rparr>\<rparr>\<rparr>)"

text \<open>One parsed frame: the body of the inner \<open>try\<close> after \<open>JSON.parse\<close>.\<close>

definition process_frame :: "payload \<Rightarrow> reader_state \<Rightarrow> event list \<times> reader_state" where
  "process_frame parsed st =
     (let res = first_result parsed;
          (evs, st1) = on_generated_text res st
      in (evs, on_generated_token_count res (on_input_token_count res st1)))"

text \<open>
  The frame a line carries, if any: lines without the \<open>data:\<close> prefix, the \<open>[DONE]\<close>
  sentinel and lines that do not parse carry none.
\<close>

definition frame_of_line :: "parser \<Rightarrow> string \<Rightarrow> payload option" where
  "frame_of_line parse line =
     (if \<not> startsWith line ''data:'' then None
      else
        (let data = trim (drop 5 line) in
         if data = ''[DONE]'' then None else parse data))"

definition process_line :: "parser \<Rightarrow> string \<Rightarrow> reader_state \<Rightarrow> event list \<times> reader_state" where
  "process_line parse line st =
     (case frame_of_line parse line of
        None \<Rightarrow> ([], st)
      | Some parsed \<Rightarrow> process_frame parsed st)"

fun process_lines :: "parser \<Rightarrow> string list \<Rightarrow> reader_state \<Rightarrow> event list \<times> reader_state" where
  "process_lines parse [] st = ([], st)"
| "process_lines parse (line # rest) st =
     (let (evs, st1) = process_line parse line st;
          (evs', st2) = process_lines parse rest st1
      in (evs @ evs', st2))"

text \<open>
  One delivered chunk: append to the buffer, split on line feeds, keep the last piece
  (\<open>lines.pop() ?? ""\<close>) as the new buffer and process the pieces before it.
\<close>

definition process_chunk ::
  "parser \<Rightarrow> string \<Rightarrow> string \<Rightarrow> reader_state \<Rightarrow> event list \<times> string \<times> reader_state" where
  "process_chunk parse chunk buffer st =
     (let lines = split_newline (buffer @ chunk);
          buffer' = (if lines = [] then [] else last lines);
          (evs, st1) = process_lines parse (butlast lines) st
      in (evs, buffer', st1))"

text \<open>
  The \<open>while (true)\<close> loop over \<open>reader.read()\<close>. The result says whether the loop left
  by \<open>break\<close> (\<open>None\<close>) or by a rejected read.
\<close>

fun read_loop ::
  "parser \<Rightarrow> string list \<Rightarrow> string option \<Rightarrow> string \<Rightarrow> reader_state
     \<Rightarrow> action list \<times> reader_state \<times> error option" where
  "read_loop parse [] None buffer st = ([Read None], st, None)"
| "read_loop parse [] (Some m) buffer st = ([Read None], st, Some (ReadRejected m))"
| "read_loop parse (chunk # rest) fin buffer st =
     (let (evs, buffer', st1) = process_chunk parse chunk buffer st;
          (acts, st2, r) = read_loop parse rest fin buffer' st1
      in (Read (Some chunk) # map Emit evs @ acts, st2, r))"

subsection \<open>\<open>streamWatsonx\<close>\<close>

definition initial_output :: "env \<Rightarrow> model_info \<Rightarrow> assistant_message" where
  "initial_output e m =
     \<lparr>content = [], api = model_api m, provider = model_provider m, model = model_id m,
      usage = \<lparr>usage_input = 0, usage_output = 0, usage_cacheRead = 0, usage_cacheWrite = 0,
               usage_totalTokens = 0,
               usage_cost = \<lparr>cost_input = 0, cost_output = 0, cost_cacheRead = 0,
                             cost_cacheWrite = 0, cost_total = 0\<rparr>\<rparr>,
      stopReason = Stop, errorMessage = None, timestamp = now_created e\<rparr>"

text \<open>\<open>a ?? b\<close> and \<open>!s\<close> for an optional string.\<close>

definition nullish :: "'a option \<Rightarrow> 'a option \<Rightarrow> 'a option" where
  "nullish a b = (case a of None \<Rightarrow> b | Some x \<Rightarrow> Some x)"

definition falsy :: "string option \<Rightarrow> bool" where
  "falsy s = (case s of None \<Rightarrow> True | Some x \<Rightarrow> x = [])"

text \<open>"Update final usage": the total and the cost, with zero prices when the model has none.\<close>

definition final_usage :: "model_info \<Rightarrow> assistant_message \<Rightarrow> assistant_message" where
  "final_usage m out =
     (let u = (usage out)\<lparr>usage_totalTokens := usage_input (usage out) + usage_output (usage out)\<rparr>;
          cost = (case model_cost m of
                    None \<Rightarrow> \<lparr>price_input = 0, price_output = 0, price_cacheRead = 0,
                              price_cacheWrite = 0\<rparr>
                  | Some c \<Rightarrow> c)
      in out\<lparr>usage := u\<lparr>usage_cost :=
           \<lparr>cost_input = (real_of_int (usage_input u) / 1000000) * price_input cost,
            cost_output = (real_of_int (usage_output u) / 1000000) * price_output cost,
            cost_cacheRead = 0,
            cost_cacheWrite = 0,
            cost_total = (real_of_int (usage_input u) / 1000000) * price_input cost
                       + (real_of_int (usage_output u) / 1000000) * price_output cost\<rparr>\<rparr>\<rparr>)"

text \<open>The loop's variables as declared before the loop.\<close>

definition initial_state :: "assistant_message \<Rightarrow> reader_state" where
  "initial_state out = \<lparr>fullText = [], startedText = False, output_msg = out\<rparr>"

text \<open>
  From the push of \<open>start\<close> to the push of \<open>done\<close>: the read loop inside
  \<open>try \<dots> finally\<close>, the final usage, \<open>text_end\<close> when text was started. A rejected read
  leaves through the \<open>finally\<close> to the outer \<open>catch\<close>.
\<close>

definition consume_body ::
  "parser \<Rightarrow> model_info \<Rightarrow> string list \<Rightarrow> string option \<Rightarrow> assistant_message
     \<Rightarrow> action list \<times> assistant_message \<times> error option" where
  "consume_body parse m chunks fin out =
     (let (acts, st, r) = read_loop parse chunks fin [] (initial_state out)
      in case r of
           Some err \<Rightarrow> (Emit Start # acts @ [ReleaseLock], output_msg st, Some err)
         | None \<Rightarrow>
             (let out' = final_usage m (output_msg st)
              in (Emit Start # acts @ [ReleaseLock]
                    @ (if startedText st then [Emit (TextEnd 0 (fullText st))] else [])
                    @ [Emit (Done out')],
                  out', None)))"

text \<open>
  The headers object \<open>{Authorization, "Content-Type", Accept, ...(options?.headers ?? {})}\<close>:
  an object is a list of properties in insertion order, and the spread sets each
  property of its operand in turn, replacing the value of a name already there (in
  place) and adding a new name at the end.
\<close>

fun set_property :: "string \<Rightarrow> string \<Rightarrow> (string \<times> string) list \<Rightarrow> (string \<times> string) list" where
  "set_property k v [] = [(k, v)]"
| "set_property k v ((k', v') # ps) =
     (if k' = k then (k, v) # ps else (k', v') # set_property k v ps)"

fun spread :: "(string \<times> string) list \<Rightarrow> (string \<times> string) list \<Rightarrow> (string \<times> string) list" where
  "spread obj [] = obj"
| "spread obj ((k, v) # ps) = spread (set_property k v obj) ps"

definition build_request ::
  "model_info \<Rightarrow> stream_options \<Rightarrow> string \<Rightarrow> string \<Rightarrow> string \<Rightarrow> generation_request" where
  "build_request m opts tok projectId prompt =
     \<lparr>req_url = (case model_baseUrl m of None \<Rightarrow> ''https://us-south.ml.cloud.ibm.com'' | Some b \<Rightarrow> b)
                 @ ''/ml/v1/text/generation_stream?version='' @ ''2024-03-14'',
      req_headers = spread [(''Authorization'', ''Bearer '' @ tok),
                            (''Content-Type'', ''application/json''),
                            (''Accept'', ''text/event-stream'')]
                      (case opt_headers opts of None \<Rightarrow> [] | Some hs \<Rightarrow> hs),
      req_model_id = model_id m,
      req_input = prompt,
      req_project_id = projectId,
      req_max_new_tokens = (case opt_maxTokens opts of None \<Rightarrow> 4096 | Some n \<Rightarrow> n),
      req_temperature = (case opt_temperature opts of None \<Rightarrow> 7 / 10 | Some t \<Rightarrow> t),
      req_parameters = opt_parameters opts\<rparr>"

text \<open>From "Build request" to the end of the \<open>try\<close> block, given the bearer token.\<close>

definition request_and_stream ::
  "env \<Rightarrow> parser \<Rightarrow> model_info \<Rightarrow> Context \<Rightarrow> stream_options \<Rightarrow> assistant_message
     \<Rightarrow> string \<Rightarrow> string \<Rightarrow> action list \<times> assistant_message \<times> error option" where
  "request_and_stream e parse m ctx opts out projectId tok =
     (case buildWatsonxPrompt ctx of
        Inl err \<Rightarrow> ([], out, Some err)
      | Inr prompt \<Rightarrow>
          (let req = build_request m opts tok projectId prompt in
           case generation e req of
             GenRejected msg \<Rightarrow> ([GenFetch req], out, Some (FetchRejected msg))
           | GenNotOk status body \<Rightarrow>
               ([GenFetch req], out,
                Some (WatsonxApiError status
                        (case body of None \<Rightarrow> ''Unknown error'' | Some t \<Rightarrow> t)))
           | GenNoBody \<Rightarrow> ([GenFetch req], out, Some NullBody)
           | GenStream chunks fin \<Rightarrow>
               (let (acts, out', r) = consume_body parse m chunks fin out
                in (GenFetch req # acts, out', r))))"

text \<open>The \<open>try\<close> block: validation of the configuration, then the token, then the rest.\<close>

definition try_block ::
  "env \<Rightarrow> parser \<Rightarrow> (string \<rightharpoonup> TokenCache) \<Rightarrow> model_info \<Rightarrow> Context \<Rightarrow> stream_options
     \<Rightarrow> assistant_message
     \<Rightarrow> action list \<times> (string \<rightharpoonup> TokenCache) \<times> assistant_message \<times> error option" where
  "try_block e parse tokenCache m ctx opts out =
     (let apiKey = nullish (opt_apiKey opts) (WATSONX_API_KEY e) in
      if falsy apiKey then ([], tokenCache, out, Some MissingApiKey)
      else
        (let projectId = nullish (opt_projectId opts) (WATSONX_PROJECT_ID e) in
         if falsy projectId then ([], tokenCache, out, Some MissingProjectId)
         else
           (case getIamToken e tokenCache (case apiKey of None \<Rightarrow> [] | Some k \<Rightarrow> k) of
              (acts, cache', Inl err) \<Rightarrow> (acts, cache', out, Some err)
            | (acts, cache', Inr tok) \<Rightarrow>
                (let (acts', out', r) =
                       request_and_stream e parse m ctx opts out
                         (case projectId of None \<Rightarrow> [] | Some p \<Rightarrow> p) tok
                 in (acts @ acts', cache', out', r)))))"

text \<open>
  One invocation: the trace of what it did and the token cache afterwards. The
  \<open>catch\<close> marks the output message and pushes \<open>error\<close> as the last event.
\<close>

definition streamWatsonx ::
  "env \<Rightarrow> parser \<Rightarrow> (string \<rightharpoonup> TokenCache) \<Rightarrow> model_info \<Rightarrow> Context \<Rightarrow> stream_options
     \<Rightarrow> action list \<times> (string \<rightharpoonup> TokenCache)" where
  "streamWatsonx e parse tokenCache m ctx opts =
     (case try_block e parse tokenCache m ctx opts (initial_output e m) of
        (acts, cache', out, None) \<Rightarrow> (acts, cache')
      | (acts, cache', out, Some err) \<Rightarrow>
          (acts @ [Emit (Error (out\<lparr>stopReason := StopError, errorMessage := Some err\<rparr>))],
           cache'))"

subsection \<open>Reading a trace\<close>

fun event_of :: "action \<Rightarrow> event option" where
  "event_of (Emit ev) = Some ev"
| "event_of (IamFetch _) = None"
| "event_of (GenFetch _) = None"
| "event_of (Read _) = None"
| "event_of ReleaseLock = None"

definition events :: "action list \<Rightarrow> event list" where
  "events acts = List.map_filter event_of acts"

fun delta_of :: "event \<Rightarrow> string option" where
  "delta_of (TextDelta _ d) = Some d"
| "delta_of Start = None"
| "delta_of (TextStart _) = None"
| "delta_of (TextEnd _ _) = None"
| "delta_of (Done _) = None"
| "delta_of (Error _) = None"

definition deltas :: "event list \<Rightarrow> string list" where
  "deltas evs = List.map_filter delta_of evs"

fun is_terminal :: "event \<Rightarrow> bool" where
  "is_terminal (Done _) = True"
| "is_terminal (Error _) = True"
| "is_terminal Start = False"
| "is_terminal (TextStart _) = False"
| "is_terminal (TextDelta _ _) = False"
| "is_terminal (TextEnd _ _) = False"

fun is_done :: "event \<Rightarrow> bool" where
  "is_done (Done _) = True"
| "is_done (Error _) = False"
| "is_done Start = False"
| "is_done (TextStart _) = False"
| "is_done (TextDelta _ _) = False"
| "is_done (TextEnd _ _) = False"

fun is_error :: "event \<Rightarrow> bool" where
  "is_error (Error _) = True"
| "is_error (Done _) = False"
| "is_error Start = False"
| "is_error (TextStart _) = False"
| "is_error (TextDelta _ _) = False"
| "is_error (TextEnd _ _) = False"

fun is_fetch :: "action \<Rightarrow> bool" where
  "is_fetch (IamFetch _) = True"
| "is_fetch (GenFetch _) = True"
| "is_fetch (Read _) = False"
| "is_fetch ReleaseLock = False"
| "is_fetch (Emit _) = False"

fun chunk_of :: "action \<Rightarrow> string option" where
  "chunk_of (Read c) = c"
| "chunk_of (IamFetch _) = None"
| "chunk_of (GenFetch _) = None"
| "chunk_of ReleaseLock = None"
| "chunk_of (Emit _) = None"

definition chunks_read :: "action list \<Rightarrow> string list" where
  "chunks_read acts = List.map_filter chunk_of acts"

subsection \<open>The frames of a response body\<close>

text \<open>
  The complete lines of a body delivered in chunks, starting from a buffer: a line is
  complete once its line feed has arrived, whatever the chunk boundaries. What follows
  the last line feed is never processed.
\<close>

fun complete_lines :: "string \<Rightarrow> string list \<Rightarrow> string list" where
  "complete_lines buffer [] = []"
| "complete_lines buffer (chunk # rest) =
     (let lines = split_newline (buffer @ chunk)
      in butlast lines @ complete_lines (if lines = [] then [] else last lines) rest)"

definition frames_from :: "parser \<Rightarrow> string \<Rightarrow> string list \<Rightarrow> payload list" where
  "frames_from parse buffer chunks = List.map_filter (frame_of_line parse) (complete_lines buffer chunks)"

definition frames :: "parser \<Rightarrow> string list \<Rightarrow> payload list" where
  "frames parse chunks = frames_from parse [] chunks"

fun process_frames :: "payload list \<Rightarrow> reader_state \<Rightarrow> event list \<times> reader_state" where
  "process_frames [] st = ([], st)"
| "process_frames (f # fs) st =
     (let (evs, st1) = process_frame f st;
          (evs', st2) = process_frames fs st1
      in (evs @ evs', st2))"

text \<open>The \<open>generated_text\<close> a frame carries in its first result, if any.\<close>

definition frame_text :: "payload \<Rightarrow> string option" where
  "frame_text parsed = (case first_result parsed of None \<Rightarrow> None | Some r \<Rightarrow> generated_text r)"

definition generated_texts :: "payload list \<Rightarrow> string list" where
  "generated_texts fs = List.map_filter frame_text fs"

text \<open>Cumulative texts: each extends the one before it, the first extends \<open>p\<close>.\<close>

fun extends_from :: "string \<Rightarrow> string list \<Rightarrow> bool" where
  "extends_from p [] = True"
| "extends_from p (t # ts) = (prefix p t \<and> extends_from t ts)"

text \<open>The events the read loop can push.\<close>

fun is_text_signal :: "event \<Rightarrow> bool" where
  "is_text_signal (TextStart _) = True"
| "is_text_signal (TextDelta _ _) = True"
| "is_text_signal Start = False"
| "is_text_signal (TextEnd _ _) = False"
| "is_text_signal (Done _) = False"
| "is_text_signal (Error _) = False"

text \<open>
  What follows the release of the reader, given the loop's final variables and how the
  loop ended: the terminal error of the \<open>catch\<close>, or \<open>text_end\<close> (when text was started)
  and \<open>done\<close>.
\<close>

definition stream_tail :: "model_info \<Rightarrow> reader_state \<Rightarrow> error option \<Rightarrow> action list" where
  "stream_tail m st r =
     (case r of
        Some err \<Rightarrow>
          [Emit (Error ((output_msg st)\<lparr>stopReason := StopError, errorMessage := Some err\<rparr>))]
      | None \<Rightarrow>
          (if startedText st then [Emit (TextEnd 0 (fullText st))] else [])
          @ [Emit (Done (final_usage m (output_msg st)))])"

subsection \<open>Concrete inputs\<close>

definition granite :: model_info where
  "granite = \<lparr>model_id = ''ibm/granite-3-8b-instruct'', model_api = ''watsonx-generation'',
              model_provider = ''watsonx'', model_baseUrl = None,
              model_cost = Some \<lparr>price_input = 5 / 100, price_output = 8 / 100,
                                  price_cacheRead = 0, price_cacheWrite = 0\<rparr>\<rparr>"

definition frame :: "string \<Rightarrow> int option \<Rightarrow> int option \<Rightarrow> payload" where
  "frame gt inp gen =
     \<lparr>results = Some [\<lparr>generated_text = Some gt, generated_token_count = gen,
                        input_token_count = inp, stop_reason = None\<rparr>]\<rparr>"

definition no_usage :: usage where
  "no_usage = \<lparr>usage_input = 0, usage_output = 0, usage_cacheRead = 0, usage_cacheWrite = 0,
               usage_totalTokens = 0,
               usage_cost = \<lparr>cost_input = 0, cost_output = 0, cost_cacheRead = 0,
                             cost_cacheWrite = 0, cost_total = 0\<rparr>\<rparr>"

text \<open>The loop's variables after a frame with text \<open>txt\<close> and the given counters.\<close>

definition seen :: "string \<Rightarrow> int \<Rightarrow> int \<Rightarrow> reader_state" where
  "seen txt inp gen =
     \<lparr>fullText = txt, startedText = True,
      output_msg = \<lparr>content = [Text txt], api = ''watsonx-generation'', provider = ''watsonx'',
                    model = ''ibm/granite-3-8b-instruct'',
                    usage = no_usage\<lparr>usage_input := inp, usage_output := gen\<rparr>,
                    stopReason = Stop, errorMessage = None, timestamp = 0\<rparr>\<rparr>"

text \<open>An environment with no variables set, given the two endpoints.\<close>

definition endpoints ::
  "(string \<Rightarrow> iam_reply) \<Rightarrow> (generation_request \<Rightarrow> generation_reply) \<Rightarrow> env" where
  "endpoints f g =
     \<lparr>WATSONX_API_KEY = None, WATSONX_PROJECT_ID = None, now_created = 1000,
      now_checked = 1000, now_stored = 1200, iam = f, generation = g\<rparr>"

text \<open>
  Identity endpoints: one that grants every key the token \<open>t1\<close> for an hour, one that
  cannot be reached, and one that knows three tenants. A generation endpoint whose
  responses have no body, and a parser that rejects every line.
\<close>

definition granting :: "string \<Rightarrow> iam_reply" where
  "granting k = IamOk ''t1'' 3600"

definition unreachable :: "string \<Rightarrow> iam_reply" where
  "unreachable k = IamRejected ''down''"

definition alice :: string where
  "alice = ''0123456789abcdef-alice''"

definition bob :: string where
  "bob = ''0123456789abcdef-bob''"

definition carol :: string where
  "carol = ''carol-0123456789abcdef''"

definition tenants :: "string \<Rightarrow> iam_reply" where
  "tenants k =
     (if k = alice then IamOk ''token-of-alice'' 3600
      else if k = bob then IamOk ''token-of-bob'' 3600
      else if k = carol then IamOk ''token-of-carol'' 3600
      else IamNotOk 400 None)"

definition no_body :: "generation_request \<Rightarrow> generation_reply" where
  "no_body r = GenNoBody"

definition no_parser :: parser where
  "no_parser s = None"

definition no_options :: stream_options where
  "no_options = \<lparr>opt_apiKey = None, opt_projectId = None, opt_maxTokens = None,
                  opt_temperature = None, opt_headers = None, opt_parameters = None\<rparr>"

definition say_hi :: Context where
  "say_hi = \<lparr>systemPrompt = None, messages = [\<lparr>msg_role = User, msg_content = Plain ''hi''\<rparr>]\<rparr>"

text \<open>
  A response body of three frames whose texts are \<open>Hel\<close>, \<open>Hello\<close> and \<open>Hello!\<close>, cut into
  chunks inside a line, with a line that does not parse and the \<open>[DONE]\<close> sentinel, and
  a parser that knows these three frames.
\<close>

definition hello_parser :: parser where
  \<open>hello_parser s =
     (if s = ''{"results":[{"generated_text":"Hel","input_token_count":1000000}]}''
      then Some (frame ''Hel'' (Some 1000000) None)
      else if s = ''{"results":[{"generated_text":"Hello","generated_token_count":2}]}''
      then Some (frame ''Hello'' None (Some 2))
      else if s = ''{"results":[{"generated_text":"Hello!","generated_token_count":500000}]}''
      then Some (frame ''Hello!'' None (Some 500000))
      else None)\<close>

definition hello_chunk1 :: string where
  \<open>hello_chunk1 =
     ''data: {"results":[{"generated_text":"Hel","input_token_count":1000000}]}''
       @ [newline, newline] @ ''da''\<close>

definition hello_chunk2 :: string where
  \<open>hello_chunk2 =
     ''ta: {"results":[{"generated_text":"Hello","generated_token_count":2}]}''
       @ [newline, newline] @ ''data: {"results":'' @ [newline]\<close>

definition hello_chunk3 :: string where
  \<open>hello_chunk3 =
     ''data: {"results":[{"generated_text":"Hello!","generated_token_count":500000}]}''
       @ [newline, newline] @ ''data: [DONE]'' @ [newline, newline]\<close>

definition hello_env :: env where
  "hello_env =
     endpoints granting (\<lambda>r. GenStream [hello_chunk1, hello_chunk2, hello_chunk3] None)"

definition hello_options :: stream_options where
  "hello_options =
     no_options\<lparr>opt_apiKey := Some ''0123456789abcdefXYZ'', opt_projectId := Some ''p1''\<rparr>"

definition hello_request :: generation_request where
  "hello_request =
     build_request granite hello_options ''t1'' ''p1''
       (''<|user|>'' @ [newline] @ ''hi'' @ [newline] @ ''<|end|>'' @ [newline]
          @ ''<|assistant|>'' @ [newline])"

definition hello_message :: assistant_message where
  "hello_message =
     \<lparr>content = [Text ''Hello!''], api = ''watsonx-generation'', provider = ''watsonx'',
      model = ''ibm/granite-3-8b-instruct'',
      usage = \<lparr>usage_input = 1000000, usage_output = 500000, usage_cacheRead = 0,
               usage_cacheWrite = 0, usage_totalTokens = 1500000,
               usage_cost = \<lparr>cost_input = 5 / 100, cost_output = 4 / 100, cost_cacheRead = 0,
                             cost_cacheWrite = 0, cost_total = 9 / 100\<rparr>\<rparr>,
      stopReason = Stop, errorMessage = None, timestamp = 1000\<rparr>"

definition three_turns :: Context where
  "three_turns =
     \<lparr>systemPrompt = Some ''Be brief.'',
      messages =
        [\<lparr>msg_role = User, msg_content = Plain ''hi''\<rparr>,
         \<lparr>msg_role = Assistant,
          msg_content = Blocks [Text ''a'', NonText ''toolCall'', Text ''b'']\<rparr>,
         \<lparr>msg_role = User, msg_content = Blocks [NonText ''image'', Text ''c'']\<rparr>]\<rparr>"

subsection \<open>The prompt as the specification words it\<close>

text \<open>
  The segment of a user or assistant message in the specification's words: the text is
  the plain string itself, or the text blocks joined by a single newline with the
  other blocks dropped, wrapped in the marker pair of the role.
\<close>

definition spec_text :: "content \<Rightarrow> string" where
  "spec_text c = (case c of Plain s \<Rightarrow> s | Blocks cs \<Rightarrow> js_join [newline] [t. Text t \<leftarrow> cs])"

definition spec_segment :: "message \<Rightarrow> string" where
  "spec_segment msg =
     (if msg_role msg = User then ''<|user|>'' else ''<|assistant|>'')
     @ [newline] @ spec_text (msg_content msg) @ [newline] @ ''<|end|>''"

text \<open>
  The turns the message types admit: a user turn with either kind of content, an
  assistant turn whose content is a list of blocks.
\<close>

definition typed_turn :: "message \<Rightarrow> bool" where
  "typed_turn msg =
     (case msg_role msg of
        User \<Rightarrow> True
      | Assistant \<Rightarrow> (case msg_content msg of Plain _ \<Rightarrow> False | Blocks _ \<Rightarrow> True)
      | ToolResult \<Rightarrow> False)"

section \<open>Properties\<close>

subsection \<open>Lists of events and actions\<close>

lemma map_filter_append:
  "List.map_filter f (xs @ ys) = List.map_filter f xs @ List.map_filter f ys"
  by (simp add: map_filter_def)

lemma events_append [simp]: "events (xs @ ys) = events xs @ events ys"
  by (simp add: events_def map_filter_append)

lemma events_Nil [simp]: "events [] = []"
  by (simp add: events_def)

lemma events_Cons [simp]:
  "events (Emit ev # xs) = ev # events xs"
  "events (Read c # xs) = events xs"
  "events (ReleaseLock # xs) = events xs"
  "events (IamFetch k # xs) = events xs"
  "events (GenFetch q # xs) = events xs"
  by (simp_all add: events_def)

lemma events_map_Emit [simp]: "events (map Emit evs) = evs"
  by (induction evs) simp_all

subsection \<open>One frame\<close>

lemma on_generated_text_usage [simp]:
  "usage (output_msg (snd (on_generated_text res st))) = usage (output_msg st)"
  by (simp add: on_generated_text_def Let_def split: option.splits)

lemma on_input_token_count_frame [simp]:
  "fullText (on_input_token_count res st) = fullText st"
  "startedText (on_input_token_count res st) = startedText st"
  "content (output_msg (on_input_token_count res st)) = content (output_msg st)"
  "usage_output (usage (output_msg (on_input_token_count res st))) = usage_output (usage (output_msg st))"
  by (simp_all add: on_input_token_count_def split: option.splits)

lemma on_generated_token_count_frame [simp]:
  "fullText (on_generated_token_count res st) = fullText st"
  "startedText (on_generated_token_count res st) = startedText st"
  "content (output_msg (on_generated_token_count res st)) = content (output_msg st)"
  "usage_input (usage (output_msg (on_generated_token_count res st))) = usage_input (usage (output_msg st))"
  by (simp_all add: on_generated_token_count_def split: option.splits)

text \<open>
  C7: a frame whose \<open>generated_text\<close> is no longer than the text seen so far pushes no
  event, and its processing runs to the end: the text seen, the started flag and the
  content block stay as they were, and the frame's token counts are still recorded.
\<close>

theorem stale_frame_emits_nothing:
  assumes "frame_text parsed = Some gt"
      and "length gt \<le> length (fullText st)"
  shows "process_frame parsed st =
           ([], on_generated_token_count (first_result parsed)
                  (on_input_token_count (first_result parsed) st))
       \<and> fullText (snd (process_frame parsed st)) = fullText st
       \<and> startedText (snd (process_frame parsed st)) = startedText st
       \<and> content (output_msg (snd (process_frame parsed st))) = content (output_msg st)"
proof -
  have "on_generated_text (first_result parsed) st = ([], st)"
    using assms by (auto simp: on_generated_text_def frame_text_def split: option.splits)
  then have "process_frame parsed st =
           ([], on_generated_token_count (first_result parsed)
                  (on_input_token_count (first_result parsed) st))"
    by (simp add: process_frame_def Let_def)
  then show ?thesis by simp
qed

theorem stale_frame_emits_nothing_witness:
  "frame_text (frame ''Hel'' None (Some 3)) = Some ''Hel''
   \<and> length ''Hel'' \<le> length (fullText (seen ''Hello'' 7 5))
   \<and> process_frame (frame ''Hel'' None (Some 3)) (seen ''Hello'' 7 5) = ([], seen ''Hello'' 7 3)"
proof -
  have a: "frame_text (frame ''Hel'' None (Some 3)) = Some ''Hel''"
    by (simp add: frame_text_def frame_def first_result_def)
  have b: "length ''Hel'' \<le> length (fullText (seen ''Hello'' 7 5))"
    by (simp add: seen_def)
  have c: "on_generated_token_count (first_result (frame ''Hel'' None (Some 3)))
             (on_input_token_count (first_result (frame ''Hel'' None (Some 3))) (seen ''Hello'' 7 5))
           = seen ''Hello'' 7 3"
    by (simp add: frame_def first_result_def on_input_token_count_def
          on_generated_token_count_def seen_def no_usage_def)
  show ?thesis
    using stale_frame_emits_nothing [OF a b] a b c by simp
qed

text \<open>
  C10: a frame that reports \<open>input_token_count\<close> 0 leaves the input counter as it was,
  and one that reports \<open>generated_token_count\<close> 0 leaves the output counter as it was;
  in both cases the frame is processed as the same frame without that field.
\<close>

theorem zero_count_keeps_counter:
  assumes "first_result parsed = Some r"
  shows "(input_token_count r = Some 0 \<longrightarrow>
            usage_input (usage (output_msg (snd (process_frame parsed st))))
              = usage_input (usage (output_msg st)))
       \<and> (generated_token_count r = Some 0 \<longrightarrow>
            usage_output (usage (output_msg (snd (process_frame parsed st))))
              = usage_output (usage (output_msg st)))
       \<and> (input_token_count r = Some 0 \<longrightarrow>
            process_frame parsed st
              = process_frame \<lparr>results = Some [r\<lparr>input_token_count := None\<rparr>]\<rparr> st)
       \<and> (generated_token_count r = Some 0 \<longrightarrow>
            process_frame parsed st
              = process_frame \<lparr>results = Some [r\<lparr>generated_token_count := None\<rparr>]\<rparr> st)"
proof -
  obtain evs st1 where g: "on_generated_text (Some r) st = (evs, st1)"
    by (cases "on_generated_text (Some r) st")
  have lhs: "process_frame parsed st
               = (evs, on_generated_token_count (Some r) (on_input_token_count (Some r) st1))"
    using assms g by (simp add: process_frame_def Let_def)
  have rhs: "process_frame \<lparr>results = Some [r']\<rparr> st
               = (evs, on_generated_token_count (Some r') (on_input_token_count (Some r') st1))"
    if "generated_text r' = generated_text r" for r'
  proof -
    have "on_generated_text (Some r') st = (evs, st1)"
      using that g by (simp add: on_generated_text_def)
    then show ?thesis
      by (simp add: process_frame_def first_result_def Let_def)
  qed
  have c: "input_token_count r = Some 0 \<Longrightarrow>
             process_frame parsed st
               = process_frame \<lparr>results = Some [r\<lparr>input_token_count := None\<rparr>]\<rparr> st"
    using lhs rhs [of "r\<lparr>input_token_count := None\<rparr>"]
    by (simp add: on_input_token_count_def on_generated_token_count_def)
  have d: "generated_token_count r = Some 0 \<Longrightarrow>
             process_frame parsed st
               = process_frame \<lparr>results = Some [r\<lparr>generated_token_count := None\<rparr>]\<rparr> st"
    using lhs rhs [of "r\<lparr>generated_token_count := None\<rparr>"]
    by (simp add: on_input_token_count_def on_generated_token_count_def)
  have u: "usage (output_msg st1) = usage (output_msg st)"
    using on_generated_text_usage [of "Some r" st] g by simp
  have pf: "snd (process_frame parsed st)
              = on_generated_token_count (Some r) (on_input_token_count (Some r) st1)"
    using assms g by (simp add: process_frame_def Let_def)
  have a: "input_token_count r = Some 0 \<Longrightarrow> on_input_token_count (Some r) st1 = st1"
    by (simp add: on_input_token_count_def)
  have b: "generated_token_count r = Some 0 \<Longrightarrow>
             on_generated_token_count (Some r) (on_input_token_count (Some r) st1)
               = on_input_token_count (Some r) st1"
    by (simp add: on_generated_token_count_def)
  have counters:
    "(input_token_count r = Some 0 \<longrightarrow>
        usage_input (usage (output_msg (snd (process_frame parsed st))))
          = usage_input (usage (output_msg st)))
   \<and> (generated_token_count r = Some 0 \<longrightarrow>
        usage_output (usage (output_msg (snd (process_frame parsed st))))
          = usage_output (usage (output_msg st)))"
    using pf a b u by simp
  show ?thesis
    using counters c d by blast
qed

theorem zero_count_keeps_counter_witness:
  "first_result (frame ''Hello!'' (Some 0) (Some 0))
     = Some \<lparr>generated_text = Some ''Hello!'', generated_token_count = Some 0,
             input_token_count = Some 0, stop_reason = None\<rparr>
   \<and> usage_input (usage (output_msg (snd (process_frame (frame ''Hello!'' (Some 0) (Some 0))
                                             (seen ''Hello'' 7 5))))) = 7
   \<and> usage_output (usage (output_msg (snd (process_frame (frame ''Hello!'' (Some 0) (Some 0))
                                              (seen ''Hello'' 7 5))))) = 5"
proof -
  let ?r = "\<lparr>generated_text = Some ''Hello!'', generated_token_count = Some 0,
             input_token_count = Some 0, stop_reason = None\<rparr>"
  have a: "first_result (frame ''Hello!'' (Some 0) (Some 0)) = Some ?r"
    by (simp add: frame_def first_result_def)
  have b: "usage_input (usage (output_msg (seen ''Hello'' 7 5))) = 7"
          "usage_output (usage (output_msg (seen ''Hello'' 7 5))) = 5"
    by (simp_all add: seen_def no_usage_def)
  have z: "input_token_count ?r = Some 0" "generated_token_count ?r = Some 0"
    by simp_all
  note t = zero_count_keeps_counter [OF a, of "seen ''Hello'' 7 5"]
  have 1: "usage_input (usage (output_msg (snd (process_frame (frame ''Hello!'' (Some 0) (Some 0))
                                                   (seen ''Hello'' 7 5)))))
             = usage_input (usage (output_msg (seen ''Hello'' 7 5)))"
    using t z by blast
  have 2: "usage_output (usage (output_msg (snd (process_frame (frame ''Hello!'' (Some 0) (Some 0))
                                                    (seen ''Hello'' 7 5)))))
             = usage_output (usage (output_msg (seen ''Hello'' 7 5)))"
    using t z by blast
  show ?thesis
    using a 1 2 b by simp
qed

subsection \<open>The read loop and the shape of a trace\<close>

lemma on_generated_text_signals:
  "list_all is_text_signal (fst (on_generated_text res st))"
  by (simp add: on_generated_text_def Let_def split: option.splits prod.splits)

lemma process_frame_signals: "list_all is_text_signal (fst (process_frame f st))"
  using on_generated_text_signals [of "first_result f" st]
  by (auto simp: process_frame_def Let_def split: prod.splits)

lemma process_frames_signals: "list_all is_text_signal (fst (process_frames fs st))"
proof (induction fs arbitrary: st)
  case Nil
  show ?case by simp
next
  case (Cons f fs)
  obtain evs st1 where a: "process_frame f st = (evs, st1)"
    by (cases "process_frame f st")
  obtain evs' st2 where b: "process_frames fs st1 = (evs', st2)"
    by (cases "process_frames fs st1")
  from process_frame_signals [of f st] a have "list_all is_text_signal evs" by simp
  moreover from Cons.IH [of st1] b have "list_all is_text_signal evs'" by simp
  ultimately show ?case using a b by simp
qed

lemma process_frames_append:
  "process_frames (fs @ gs) st =
     (let (evs, st1) = process_frames fs st;
          (evs', st2) = process_frames gs st1
      in (evs @ evs', st2))"
  by (induction fs arbitrary: st) (simp_all add: Let_def split: prod.splits)

lemma process_lines_frames:
  "process_lines parse ls st = process_frames (List.map_filter (frame_of_line parse) ls) st"
proof (induction ls arbitrary: st)
  case Nil
  show ?case by simp
next
  case (Cons l ls)
  show ?case
    by (cases "frame_of_line parse l")
       (simp_all add: process_line_def Cons.IH Let_def split: prod.splits)
qed

lemma read_loop_frames:
  "read_loop parse chunks fin buf st = (acts, st', r) \<Longrightarrow>
     events acts = fst (process_frames (frames_from parse buf chunks) st)
   \<and> st' = snd (process_frames (frames_from parse buf chunks) st)
   \<and> r = map_option ReadRejected fin
   \<and> chunks_read acts = chunks
   \<and> filter is_fetch acts = []
   \<and> ReleaseLock \<notin> set acts"
proof (induction chunks arbitrary: buf st acts st' r)
  case Nil
  then show ?case
    by (cases fin) (auto simp: frames_from_def chunks_read_def)
next
  case (Cons chunk rest)
  obtain evs buf1 st1 where a: "process_chunk parse chunk buf st = (evs, buf1, st1)"
    by (cases "process_chunk parse chunk buf st")
  obtain acts1 st2 r1 where b: "read_loop parse rest fin buf1 st1 = (acts1, st2, r1)"
    by (cases "read_loop parse rest fin buf1 st1")
  from Cons.prems a b have res: "acts = Read (Some chunk) # map Emit evs @ acts1" "st' = st2" "r = r1"
    by simp_all
  note ih = Cons.IH [OF b]
  let ?ls = "split_newline (buf @ chunk)"
  from a have c: "process_lines parse (butlast ?ls) st = (evs, st1)"
    and d: "buf1 = (if ?ls = [] then [] else last ?ls)"
    by (auto simp: process_chunk_def Let_def split: prod.splits)
  have fr: "frames_from parse buf (chunk # rest)
              = List.map_filter (frame_of_line parse) (butlast ?ls) @ frames_from parse buf1 rest"
    using d by (simp add: frames_from_def Let_def map_filter_append)
  have pf: "process_frames (List.map_filter (frame_of_line parse) (butlast ?ls)) st = (evs, st1)"
    using c by (simp add: process_lines_frames)
  have e: "process_frames (frames_from parse buf (chunk # rest)) st
             = (evs @ fst (process_frames (frames_from parse buf1 rest) st1),
                snd (process_frames (frames_from parse buf1 rest) st1))"
    by (simp add: fr process_frames_append pf split: prod.splits)
  have f: "filter is_fetch (map Emit evs) = []" "ReleaseLock \<notin> set (map Emit evs)"
          "List.map_filter chunk_of (map Emit evs) = []"
    by (induction evs) auto
  show ?case
    using ih res e f by (auto simp: chunks_read_def map_filter_append)
qed

text \<open>
  Every trace is either some fetches and the terminal error, or some fetches, the
  generation request answered by a stream, \<open>start\<close>, the read loop, the release of the
  reader and the tail.
\<close>

lemma consume_body_shape:
  assumes "read_loop parse chunks fin [] (initial_state out) = (acts, st, r)"
  shows "consume_body parse m chunks fin out =
           (Emit Start # acts @ ReleaseLock #
              (case r of
                 Some err \<Rightarrow> []
               | None \<Rightarrow> (if startedText st then [Emit (TextEnd 0 (fullText st))] else [])
                          @ [Emit (Done (final_usage m (output_msg st)))]),
            (case r of Some err \<Rightarrow> output_msg st | None \<Rightarrow> final_usage m (output_msg st)),
            r)"
  using assms by (simp add: consume_body_def Let_def split: option.splits)

lemma streamWatsonx_shape:
  "(\<exists>pre err. fst (streamWatsonx e parse tokenCache m ctx opts)
        = pre @ [Emit (Error ((initial_output e m)\<lparr>stopReason := StopError, errorMessage := Some err\<rparr>))]
      \<and> list_all is_fetch pre)
 \<or> (\<exists>pre cache' tok req chunks fin acts st r.
        getIamToken e tokenCache
          (case nullish (opt_apiKey opts) (WATSONX_API_KEY e) of None \<Rightarrow> [] | Some k \<Rightarrow> k)
          = (pre, cache', Inr tok)
      \<and> generation e req = GenStream chunks fin
      \<and> read_loop parse chunks fin [] (initial_state (initial_output e m)) = (acts, st, r)
      \<and> fst (streamWatsonx e parse tokenCache m ctx opts)
          = pre @ GenFetch req # Emit Start # acts @ ReleaseLock # stream_tail m st r
      \<and> list_all is_fetch pre)"
proof -
  let ?out = "initial_output e m"
  let ?key = "nullish (opt_apiKey opts) (WATSONX_API_KEY e)"
  let ?proj = "nullish (opt_projectId opts) (WATSONX_PROJECT_ID e)"
  let ?T = "fst (streamWatsonx e parse tokenCache m ctx opts)"
  let ?A = "\<exists>pre err. ?T = pre @ [Emit (Error (?out\<lparr>stopReason := StopError, errorMessage := Some err\<rparr>))]
      \<and> list_all is_fetch pre"
  show ?thesis
  proof (cases "falsy ?key \<or> falsy ?proj")
    case True
    then have "?T = [] @ [Emit (Error (?out\<lparr>stopReason := StopError,
                      errorMessage := Some (if falsy ?key then MissingApiKey else MissingProjectId)\<rparr>))]"
      by (auto simp: streamWatsonx_def try_block_def Let_def)
    moreover have "list_all is_fetch []" by simp
    ultimately have ?A by blast
    then show ?thesis by blast
  next
    case False
    obtain k where k: "(case ?key of None \<Rightarrow> [] | Some k \<Rightarrow> k) = k" by simp
    obtain p where p: "(case ?proj of None \<Rightarrow> [] | Some p \<Rightarrow> p) = p" by simp
    obtain iacts cache' tr where it: "getIamToken e tokenCache k = (iacts, cache', tr)"
      by (cases "getIamToken e tokenCache k")
    have iacts: "list_all is_fetch iacts"
      using it by (auto simp: getIamToken_def exchangeToken_def split: option.splits if_splits iam_reply.splits)
    show ?thesis
    proof (cases tr)
      case (Inl err)
      have "?T = iacts @ [Emit (Error (?out\<lparr>stopReason := StopError, errorMessage := Some err\<rparr>))]"
        using False k p it Inl by (simp add: streamWatsonx_def try_block_def Let_def)
      then show ?thesis using iacts by blast
    next
      case (Inr tok)
      note tk = it [unfolded Inr]
      obtain racts out' r where rs: "request_and_stream e parse m ctx opts ?out p tok = (racts, out', r)"
        by (cases "request_and_stream e parse m ctx opts ?out p tok")
      have T: "?T = iacts @ racts @ (case r of None \<Rightarrow> []
                 | Some err \<Rightarrow> [Emit (Error (out'\<lparr>stopReason := StopError, errorMessage := Some err\<rparr>))])"
        using False k p it Inr rs
        by (simp add: streamWatsonx_def try_block_def Let_def split: option.splits)
      show ?thesis
      proof (cases "buildWatsonxPrompt ctx")
        case (Inl err)
        then have "racts = []" "out' = ?out" "r = Some err"
          using rs by (simp_all add: request_and_stream_def)
        then show ?thesis using T iacts by auto
      next
        case (Inr prompt)
        let ?req = "build_request m opts tok p prompt"
        show ?thesis
        proof (cases "generation e ?req")
          case (GenRejected msg)
          then have "racts = [GenFetch ?req]" "out' = ?out" "r = Some (FetchRejected msg)"
            using rs Inr by (simp_all add: request_and_stream_def Let_def)
          then have "?T = (iacts @ [GenFetch ?req]) @ [Emit (Error (?out\<lparr>stopReason := StopError, errorMessage := Some (FetchRejected msg)\<rparr>))]"
            using T by simp
          moreover have "list_all is_fetch (iacts @ [GenFetch ?req])" using iacts by simp
          ultimately show ?thesis by blast
        next
          case (GenNotOk status body)
          then have "racts = [GenFetch ?req]" "out' = ?out"
            "r = Some (WatsonxApiError status (case body of None \<Rightarrow> ''Unknown error'' | Some t \<Rightarrow> t))"
            using rs Inr by (simp_all add: request_and_stream_def Let_def)
          then have "?T = (iacts @ [GenFetch ?req]) @ [Emit (Error (?out\<lparr>stopReason := StopError,
               errorMessage := Some (WatsonxApiError status (case body of None \<Rightarrow> ''Unknown error'' | Some t \<Rightarrow> t))\<rparr>))]"
            using T by simp
          moreover have "list_all is_fetch (iacts @ [GenFetch ?req])" using iacts by simp
          ultimately show ?thesis by blast
        next
          case GenNoBody
          then have "racts = [GenFetch ?req]" "out' = ?out" "r = Some NullBody"
            using rs Inr by (simp_all add: request_and_stream_def Let_def)
          then have "?T = (iacts @ [GenFetch ?req]) @ [Emit (Error (?out\<lparr>stopReason := StopError, errorMessage := Some NullBody\<rparr>))]"
            using T by simp
          moreover have "list_all is_fetch (iacts @ [GenFetch ?req])" using iacts by simp
          ultimately show ?thesis by blast
        next
          case (GenStream chunks fin)
          obtain acts st r1 where rl: "read_loop parse chunks fin [] (initial_state ?out) = (acts, st, r1)"
            by (cases "read_loop parse chunks fin [] (initial_state ?out)")
          note cb = consume_body_shape [OF rl, of m]
          have "request_and_stream e parse m ctx opts ?out p tok =
            (GenFetch ?req # Emit Start # acts @ ReleaseLock #
              (case r1 of
                 Some err \<Rightarrow> []
               | None \<Rightarrow> (if startedText st then [Emit (TextEnd 0 (fullText st))] else [])
                          @ [Emit (Done (final_usage m (output_msg st)))]),
             (case r1 of Some err \<Rightarrow> output_msg st | None \<Rightarrow> final_usage m (output_msg st)),
             r1)"
            using Inr GenStream cb by (simp add: request_and_stream_def Let_def)
          with rs have "racts = GenFetch ?req # Emit Start # acts @ ReleaseLock #
              (case r1 of
                 Some err \<Rightarrow> []
               | None \<Rightarrow> (if startedText st then [Emit (TextEnd 0 (fullText st))] else [])
                          @ [Emit (Done (final_usage m (output_msg st)))])"
            and "out' = (case r1 of Some err \<Rightarrow> output_msg st | None \<Rightarrow> final_usage m (output_msg st))"
            and "r = r1"
            by (metis prod.inject)+
          then have "?T = iacts @ GenFetch ?req # Emit Start # acts @ ReleaseLock # stream_tail m st r1"
            using T by (simp add: stream_tail_def split: option.splits)
          then show ?thesis using GenStream rl iacts tk k by blast
        qed
      qed
    qed
  qed
qed

subsection \<open>The credential cache\<close>

text \<open>
  C6: with a cache entry under the credential's key that expires more than 5 minutes
  after the current time, \<open>getIamToken\<close> returns the cached token, calls no endpoint
  and leaves the cache as it is. Otherwise (no entry, or one within 5 minutes of its
  expiry) it calls the identity endpoint exactly once, whatever the outcome, and when
  the exchange succeeds it stores the new token under the key with expiry
  \<open>now + expires_in\<close> seconds and returns it.
\<close>

theorem getIamToken_cache_or_exchange:
  "(tokenCache (cacheKey apiKey) = Some c \<and> now_checked e + 5 * 60 * 1000 < expiresAt c \<longrightarrow>
      getIamToken e tokenCache apiKey = ([], tokenCache, Inr (token c)))
 \<and> ((case tokenCache (cacheKey apiKey) of
        None \<Rightarrow> True
      | Some c \<Rightarrow> expiresAt c \<le> now_checked e + 5 * 60 * 1000) \<longrightarrow>
      fst (getIamToken e tokenCache apiKey) = [IamFetch apiKey]
    \<and> (iam e apiKey = IamOk tok secs \<longrightarrow>
         getIamToken e tokenCache apiKey =
           ([IamFetch apiKey],
            tokenCache(cacheKey apiKey \<mapsto> \<lparr>token = tok, expiresAt = now_stored e + secs * 1000\<rparr>),
            Inr tok)))"
  by (auto simp: getIamToken_def exchangeToken_def split: option.splits iam_reply.splits)

text \<open>
  A first call at time 1000 exchanges and stores a token that expires at 3601200; a call
  one millisecond before the 5-minute margin starts (at 3301199) is served from the
  cache, although the endpoint is down; at 3301200 the entry is no longer used.
\<close>

theorem getIamToken_cache_or_exchange_witness:
  "Map.empty (cacheKey ''0123456789abcdefXYZ'') = (None :: TokenCache option)
   \<and> iam (endpoints granting no_body) ''0123456789abcdefXYZ'' = IamOk ''t1'' 3600
   \<and> getIamToken (endpoints granting no_body) Map.empty ''0123456789abcdefXYZ''
        = ([IamFetch ''0123456789abcdefXYZ''],
           [''0123456789abcdef'' \<mapsto> \<lparr>token = ''t1'', expiresAt = 3601200\<rparr>], Inr ''t1'')
   \<and> [''0123456789abcdef'' \<mapsto> \<lparr>token = ''t1'', expiresAt = 3601200\<rparr>] (cacheKey ''0123456789abcdefXYZ'')
        = Some \<lparr>token = ''t1'', expiresAt = 3601200\<rparr>
   \<and> now_checked ((endpoints unreachable no_body)\<lparr>now_checked := 3301199\<rparr>) + 5 * 60 * 1000
        < expiresAt \<lparr>token = ''t1'', expiresAt = 3601200\<rparr>
   \<and> getIamToken ((endpoints unreachable no_body)\<lparr>now_checked := 3301199\<rparr>)
        [''0123456789abcdef'' \<mapsto> \<lparr>token = ''t1'', expiresAt = 3601200\<rparr>] ''0123456789abcdefXYZ''
        = ([], [''0123456789abcdef'' \<mapsto> \<lparr>token = ''t1'', expiresAt = 3601200\<rparr>], Inr ''t1'')
   \<and> getIamToken ((endpoints unreachable no_body)\<lparr>now_checked := 3301200\<rparr>)
        [''0123456789abcdef'' \<mapsto> \<lparr>token = ''t1'', expiresAt = 3601200\<rparr>] ''0123456789abcdefXYZ''
        = ([IamFetch ''0123456789abcdefXYZ''],
           [''0123456789abcdef'' \<mapsto> \<lparr>token = ''t1'', expiresAt = 3601200\<rparr>],
           Inl (FetchRejected ''down''))"
  using getIamToken_cache_or_exchange
          [of Map.empty "''0123456789abcdefXYZ''" undefined "endpoints granting no_body" "''t1''" 3600]
        getIamToken_cache_or_exchange
          [of "[''0123456789abcdef'' \<mapsto> \<lparr>token = ''t1'', expiresAt = 3601200\<rparr>]"
              "''0123456789abcdefXYZ''" "\<lparr>token = ''t1'', expiresAt = 3601200\<rparr>"
              "(endpoints unreachable no_body)\<lparr>now_checked := 3301199\<rparr>"]
  by (simp add: endpoints_def cacheKey_def granting_def unreachable_def getIamToken_def
        exchangeToken_def)

text \<open>
  C3, as stated, fails: two distinct non-empty credentials that agree on their first
  16 code units have the same cache key, and the token stored by the exchange for the
  first is returned, with no call to the identity endpoint, to a call with the second.
\<close>

theorem shared_prefix_shares_token:
  "alice \<noteq> bob \<and> alice \<noteq> [] \<and> bob \<noteq> []
   \<and> cacheKey alice = cacheKey bob
   \<and> getIamToken (endpoints tenants no_body) Map.empty alice
        = ([IamFetch alice],
           [''0123456789abcdef'' \<mapsto> \<lparr>token = ''token-of-alice'', expiresAt = 3601200\<rparr>],
           Inr ''token-of-alice'')
   \<and> getIamToken ((endpoints tenants no_body)\<lparr>now_checked := 2000\<rparr>)
        [''0123456789abcdef'' \<mapsto> \<lparr>token = ''token-of-alice'', expiresAt = 3601200\<rparr>] bob
        = ([],
           [''0123456789abcdef'' \<mapsto> \<lparr>token = ''token-of-alice'', expiresAt = 3601200\<rparr>],
           Inr ''token-of-alice'')"
  by (simp add: getIamToken_def exchangeToken_def cacheKey_def endpoints_def tenants_def
        alice_def bob_def)

text \<open>
  C3, amended: two credentials whose first 16 code units differ have distinct cache
  keys, and a call for one leaves the other's cache entry as it was, so a later call
  with the other does and returns what it would have without the first call.
\<close>

theorem distinct_prefix_distinct_entry:
  assumes "take 16 a \<noteq> take 16 b"
  shows "cacheKey a \<noteq> cacheKey b
       \<and> fst (snd (getIamToken e tokenCache a)) (cacheKey b) = tokenCache (cacheKey b)
       \<and> fst (getIamToken e' (fst (snd (getIamToken e tokenCache a))) b)
           = fst (getIamToken e' tokenCache b)
       \<and> snd (snd (getIamToken e' (fst (snd (getIamToken e tokenCache a))) b))
           = snd (snd (getIamToken e' tokenCache b))"
proof -
  have k: "cacheKey a \<noteq> cacheKey b"
    using assms by (simp add: cacheKey_def)
  have l: "fst (snd (getIamToken e tokenCache a)) (cacheKey b) = tokenCache (cacheKey b)"
    using k by (auto simp: getIamToken_def exchangeToken_def split: option.splits iam_reply.splits)
  have m: "\<And>c1 c2. c1 (cacheKey b) = c2 (cacheKey b) \<Longrightarrow>
            fst (getIamToken e' c1 b) = fst (getIamToken e' c2 b)
          \<and> snd (snd (getIamToken e' c1 b)) = snd (snd (getIamToken e' c2 b))"
    by (auto simp: getIamToken_def exchangeToken_def split: option.splits iam_reply.splits)
  show ?thesis
    using k l m [of "fst (snd (getIamToken e tokenCache a))" tokenCache] by simp
qed

theorem distinct_prefix_distinct_entry_witness:
  "take 16 alice \<noteq> take 16 carol
   \<and> cacheKey alice \<noteq> cacheKey carol
   \<and> getIamToken ((endpoints tenants no_body)\<lparr>now_checked := 2000\<rparr>)
        (fst (snd (getIamToken (endpoints tenants no_body) Map.empty alice))) carol
      = ([IamFetch carol],
         [''0123456789abcdef'' \<mapsto> \<lparr>token = ''token-of-alice'', expiresAt = 3601200\<rparr>,
          ''carol-0123456789'' \<mapsto> \<lparr>token = ''token-of-carol'', expiresAt = 3601200\<rparr>],
         Inr ''token-of-carol'')"
proof -
  have a: "take 16 alice \<noteq> take 16 carol"
    by (simp add: alice_def carol_def)
  show ?thesis
    using a distinct_prefix_distinct_entry
      [where e = "endpoints tenants no_body"
         and e' = "(endpoints tenants no_body)\<lparr>now_checked := 2000\<rparr>"
         and tokenCache = Map.empty, OF a]
    by (simp add: getIamToken_def exchangeToken_def cacheKey_def endpoints_def tenants_def
          alice_def bob_def carol_def)
qed

subsection \<open>Configuration\<close>

text \<open>
  C8: when neither the options nor the environment give a credential, or neither give
  a project identifier, the invocation pushes exactly one event, the terminal error
  that names what is missing, and calls neither endpoint; the cache is untouched.
\<close>

theorem missing_configuration_fails_fast:
  assumes "(opt_apiKey opts = None \<and> WATSONX_API_KEY e = None)
         \<or> (opt_projectId opts = None \<and> WATSONX_PROJECT_ID e = None)"
  shows "streamWatsonx e parse tokenCache m ctx opts =
           ([Emit (Error ((initial_output e m)
               \<lparr>stopReason := StopError,
                errorMessage := Some (if falsy (nullish (opt_apiKey opts) (WATSONX_API_KEY e))
                                      then MissingApiKey else MissingProjectId)\<rparr>))],
            tokenCache)
       \<and> filter is_fetch (fst (streamWatsonx e parse tokenCache m ctx opts)) = []"
  using assms
  by (auto simp: streamWatsonx_def try_block_def nullish_def falsy_def Let_def split: option.splits)

theorem missing_configuration_fails_fast_witness:
  "opt_projectId (no_options\<lparr>opt_apiKey := Some alice\<rparr>) = None
   \<and> WATSONX_PROJECT_ID (endpoints granting no_body) = None
   \<and> streamWatsonx (endpoints granting no_body) no_parser Map.empty granite say_hi
        (no_options\<lparr>opt_apiKey := Some alice\<rparr>)
      = ([Emit (Error ((initial_output (endpoints granting no_body) granite)
                         \<lparr>stopReason := StopError, errorMessage := Some MissingProjectId\<rparr>))],
         Map.empty)"
proof -
  have a: "(opt_apiKey (no_options\<lparr>opt_apiKey := Some alice\<rparr>) = None
            \<and> WATSONX_API_KEY (endpoints granting no_body) = None)
         \<or> (opt_projectId (no_options\<lparr>opt_apiKey := Some alice\<rparr>) = None
            \<and> WATSONX_PROJECT_ID (endpoints granting no_body) = None)"
    by (simp add: no_options_def endpoints_def)
  have b: "falsy (nullish (opt_apiKey (no_options\<lparr>opt_apiKey := Some alice\<rparr>))
                    (WATSONX_API_KEY (endpoints granting no_body))) = False"
    by (simp add: no_options_def falsy_def nullish_def alice_def)
  show ?thesis
    using missing_configuration_fails_fast [OF a, of no_parser Map.empty granite say_hi] a b
    by (simp add: no_options_def endpoints_def)
qed

subsection \<open>Traces\<close>

lemma events_fetches: "list_all is_fetch pre \<Longrightarrow> events pre = []"
proof (induction pre)
  case Nil
  show ?case by simp
next
  case (Cons a pre)
  then show ?case by (cases a) simp_all
qed

lemma Emit_in_set: "Emit ev \<in> set acts \<longleftrightarrow> ev \<in> set (events acts)"
proof (induction acts)
  case Nil
  show ?case by simp
next
  case (Cons a acts)
  then show ?case by (cases a) auto
qed

lemma signals_not_terminal: "list_all is_text_signal evs \<Longrightarrow> filter is_terminal evs = []"
proof (induction evs)
  case Nil
  show ?case by simp
next
  case (Cons ev evs)
  then show ?case by (cases ev) simp_all
qed

lemma signals_not_done_error:
  "list_all is_text_signal evs \<Longrightarrow> filter is_done evs = [] \<and> filter is_error evs = []"
proof (induction evs)
  case Nil
  show ?case by simp
next
  case (Cons ev evs)
  then show ?case by (cases ev) simp_all
qed

lemma read_loop_starts_with_read:
  "read_loop parse chunks fin buf st = (acts, st', r) \<Longrightarrow> \<exists>c rest. acts = Read c # rest"
  by (cases chunks; cases fin) (auto simp: Let_def split: prod.splits)

lemma read_loop_signals:
  assumes "read_loop parse chunks fin buf st = (acts, st', r)"
  shows "list_all is_text_signal (events acts)"
  using read_loop_frames [OF assms] process_frames_signals by simp

lemma stream_tail_terminal:
  "filter is_terminal (events (stream_tail m st r)) = [last (events (stream_tail m st r))]"
  by (simp add: stream_tail_def split: option.splits)

subsection \<open>A run on the three-frame body\<close>

lemma hello_prompt:
  "buildWatsonxPrompt say_hi =
     Inr (''<|user|>'' @ [newline] @ ''hi'' @ [newline] @ ''<|end|>'' @ [newline]
            @ ''<|assistant|>'' @ [newline])"
  by (simp add: buildWatsonxPrompt_def say_hi_def system_parts_def push_message_def)

lemma hello_loop:
  "read_loop hello_parser [hello_chunk1, hello_chunk2, hello_chunk3] None []
       (initial_state (initial_output hello_env granite))
     = ([Read (Some hello_chunk1), Emit (TextStart 0), Emit (TextDelta 0 ''Hel''),
         Read (Some hello_chunk2), Emit (TextDelta 0 ''lo''),
         Read (Some hello_chunk3), Emit (TextDelta 0 ''!''),
         Read None],
        \<lparr>fullText = ''Hello!'', startedText = True,
         output_msg = (initial_output hello_env granite)
           \<lparr>content := [Text ''Hello!''],
            usage := no_usage\<lparr>usage_input := 1000000, usage_output := 500000\<rparr>\<rparr>\<rparr>,
        None)"
proof -
  have 1: "process_chunk hello_parser hello_chunk1 [] (initial_state (initial_output hello_env granite))
           = ([TextStart 0, TextDelta 0 ''Hel''], ''da'',
              \<lparr>fullText = ''Hel'', startedText = True,
               output_msg = (initial_output hello_env granite)
                 \<lparr>content := [Text ''Hel''], usage := no_usage\<lparr>usage_input := 1000000\<rparr>\<rparr>\<rparr>)"
    by (simp add: hello_chunk1_def hello_parser_def process_chunk_def process_line_def
          frame_of_line_def startsWith_def trim_def is_space_def process_frame_def frame_def
          first_result_def on_generated_text_def on_input_token_count_def
          on_generated_token_count_def initial_state_def initial_output_def no_usage_def Let_def)
  have 2: "process_chunk hello_parser hello_chunk2 ''da''
              \<lparr>fullText = ''Hel'', startedText = True,
               output_msg = (initial_output hello_env granite)
                 \<lparr>content := [Text ''Hel''], usage := no_usage\<lparr>usage_input := 1000000\<rparr>\<rparr>\<rparr>
           = ([TextDelta 0 ''lo''], [],
              \<lparr>fullText = ''Hello'', startedText = True,
               output_msg = (initial_output hello_env granite)
                 \<lparr>content := [Text ''Hello''],
                  usage := no_usage\<lparr>usage_input := 1000000, usage_output := 2\<rparr>\<rparr>\<rparr>)"
    by (simp add: hello_chunk2_def hello_parser_def process_chunk_def process_line_def
          frame_of_line_def startsWith_def trim_def is_space_def process_frame_def frame_def
          first_result_def on_generated_text_def on_input_token_count_def
          on_generated_token_count_def initial_output_def no_usage_def Let_def)
  have 3: "process_chunk hello_parser hello_chunk3 []
              \<lparr>fullText = ''Hello'', startedText = True,
               output_msg = (initial_output hello_env granite)
                 \<lparr>content := [Text ''Hello''],
                  usage := no_usage\<lparr>usage_input := 1000000, usage_output := 2\<rparr>\<rparr>\<rparr>
           = ([TextDelta 0 ''!''], [],
              \<lparr>fullText = ''Hello!'', startedText = True,
               output_msg = (initial_output hello_env granite)
                 \<lparr>content := [Text ''Hello!''],
                  usage := no_usage\<lparr>usage_input := 1000000, usage_output := 500000\<rparr>\<rparr>\<rparr>)"
    by (simp add: hello_chunk3_def hello_parser_def process_chunk_def process_line_def
          frame_of_line_def startsWith_def trim_def is_space_def process_frame_def frame_def
          first_result_def on_generated_text_def on_input_token_count_def
          on_generated_token_count_def initial_output_def no_usage_def Let_def)
  show ?thesis
    by (simp add: 1 2 3)
qed

lemma hello_run:
  "fst (streamWatsonx hello_env hello_parser Map.empty granite say_hi hello_options)
     = [IamFetch ''0123456789abcdefXYZ'', GenFetch hello_request, Emit Start,
        Read (Some hello_chunk1), Emit (TextStart 0), Emit (TextDelta 0 ''Hel''),
        Read (Some hello_chunk2), Emit (TextDelta 0 ''lo''),
        Read (Some hello_chunk3), Emit (TextDelta 0 ''!''),
        Read None, ReleaseLock, Emit (TextEnd 0 ''Hello!''), Emit (Done hello_message)]"
proof -
  have g: "generation hello_env hello_request
             = GenStream [hello_chunk1, hello_chunk2, hello_chunk3] None"
    by (simp add: hello_env_def endpoints_def)
  have c: "consume_body hello_parser granite [hello_chunk1, hello_chunk2, hello_chunk3] None
             (initial_output hello_env granite)
     = ([Emit Start,
         Read (Some hello_chunk1), Emit (TextStart 0), Emit (TextDelta 0 ''Hel''),
         Read (Some hello_chunk2), Emit (TextDelta 0 ''lo''),
         Read (Some hello_chunk3), Emit (TextDelta 0 ''!''),
         Read None, ReleaseLock, Emit (TextEnd 0 ''Hello!''), Emit (Done hello_message)],
        hello_message, None)"
    using consume_body_shape [OF hello_loop, of granite]
    by (simp add: final_usage_def granite_def hello_message_def initial_output_def hello_env_def
          endpoints_def no_usage_def Let_def)
  have r: "request_and_stream hello_env hello_parser granite say_hi hello_options
             (initial_output hello_env granite) ''p1'' ''t1''
           = (GenFetch hello_request #
              [Emit Start,
               Read (Some hello_chunk1), Emit (TextStart 0), Emit (TextDelta 0 ''Hel''),
               Read (Some hello_chunk2), Emit (TextDelta 0 ''lo''),
               Read (Some hello_chunk3), Emit (TextDelta 0 ''!''),
               Read None, ReleaseLock, Emit (TextEnd 0 ''Hello!''), Emit (Done hello_message)],
              hello_message, None)"
    unfolding request_and_stream_def hello_prompt
    using g c by (simp add: hello_request_def Let_def)
  have t: "getIamToken hello_env Map.empty ''0123456789abcdefXYZ''
            = ([IamFetch ''0123456789abcdefXYZ''],
               [''0123456789abcdef'' \<mapsto> \<lparr>token = ''t1'', expiresAt = 3601200\<rparr>], Inr ''t1'')"
    by (simp add: getIamToken_def exchangeToken_def cacheKey_def hello_env_def endpoints_def
          granting_def)
  have k: "nullish (opt_apiKey hello_options) (WATSONX_API_KEY hello_env)
             = Some ''0123456789abcdefXYZ''"
          "nullish (opt_projectId hello_options) (WATSONX_PROJECT_ID hello_env) = Some ''p1''"
    by (simp_all add: hello_options_def no_options_def nullish_def)
  show ?thesis
    by (simp add: streamWatsonx_def try_block_def k falsy_def t r Let_def)
qed

lemma hello_frames:
  "frames hello_parser [hello_chunk1, hello_chunk2, hello_chunk3]
     = [frame ''Hel'' (Some 1000000) None, frame ''Hello'' None (Some 2),
        frame ''Hello!'' None (Some 500000)]"
  by (simp add: frames_def frames_from_def hello_chunk1_def hello_chunk2_def hello_chunk3_def
        hello_parser_def frame_of_line_def startsWith_def trim_def is_space_def Let_def)

lemma hello_valid:
  "nullish (opt_apiKey hello_options) (WATSONX_API_KEY hello_env) = Some ''0123456789abcdefXYZ''"
  "nullish (opt_projectId hello_options) (WATSONX_PROJECT_ID hello_env) = Some ''p1''"
  by (simp_all add: hello_options_def no_options_def nullish_def)


subsection \<open>The channel\<close>

text \<open>
  C2: on every invocation (each awaited call of which settles) the channel carries
  exactly one terminal event, \<open>done\<close> or \<open>error\<close>, and it is the last event.
\<close>

theorem one_terminal_event_and_last:
  "length (filter is_terminal (events (fst (streamWatsonx e parse tokenCache m ctx opts)))) = 1
   \<and> (filter is_done (events (fst (streamWatsonx e parse tokenCache m ctx opts))) = []
      \<or> filter is_error (events (fst (streamWatsonx e parse tokenCache m ctx opts))) = [])
   \<and> events (fst (streamWatsonx e parse tokenCache m ctx opts)) \<noteq> []
   \<and> is_terminal (last (events (fst (streamWatsonx e parse tokenCache m ctx opts))))"
proof -
  let ?T = "fst (streamWatsonx e parse tokenCache m ctx opts)"
  from streamWatsonx_shape [of e parse tokenCache m ctx opts]
  consider (failed) pre err where
      "?T = pre @ [Emit (Error ((initial_output e m)\<lparr>stopReason := StopError, errorMessage := Some err\<rparr>))]"
      "list_all is_fetch pre"
    | (streamed) pre req chunks fin acts st r where
      "read_loop parse chunks fin [] (initial_state (initial_output e m)) = (acts, st, r)"
      "?T = pre @ GenFetch req # Emit Start # acts @ ReleaseLock # stream_tail m st r"
      "list_all is_fetch pre"
    by blast
  then show ?thesis
  proof cases
    case failed
    then show ?thesis by (simp add: events_fetches)
  next
    case streamed
    have a: "filter is_terminal (events acts) = []"
      using read_loop_signals [OF streamed(1)] by (rule signals_not_terminal)
    have a': "filter is_done (events acts) = []" "filter is_error (events acts) = []"
      using read_loop_signals [OF streamed(1)] signals_not_done_error by blast+
    have b: "events ?T = Start # events acts @ events (stream_tail m st r)"
      using streamed by (simp add: events_fetches)
    have c: "events (stream_tail m st r) \<noteq> []" "is_terminal (last (events (stream_tail m st r)))"
      by (simp_all add: stream_tail_def split: option.splits)
    have d: "filter is_done (events (stream_tail m st r)) = []
           \<or> filter is_error (events (stream_tail m st r)) = []"
      by (simp add: stream_tail_def split: option.splits)
    show ?thesis
      using a a' b c d stream_tail_terminal [of m st r] by simp
  qed
qed

lemma not_Start_signals: "list_all is_text_signal evs \<Longrightarrow> Start \<notin> set evs"
  by (auto simp: list_all_iff)

text \<open>
  C5, as stated, fails: on a run that passes the validation, \<open>start\<close> is pushed only
  after the token exchange and the generation request have both completed.
\<close>

theorem start_pushed_after_both_requests:
  "nullish (opt_apiKey hello_options) (WATSONX_API_KEY hello_env) = Some ''0123456789abcdefXYZ''
   \<and> nullish (opt_projectId hello_options) (WATSONX_PROJECT_ID hello_env) = Some ''p1''
   \<and> take 3 (fst (streamWatsonx hello_env hello_parser Map.empty granite say_hi hello_options))
        = [IamFetch ''0123456789abcdefXYZ'', GenFetch hello_request, Emit Start]"
  by (simp add: hello_run hello_valid)

text \<open>
  C5, amended: on an invocation that passes the validation, either the token is
  obtained and the generation request is answered by a stream, and then \<open>start\<close> is
  pushed once, right after that request and before anything else is pushed or read; or
  \<open>start\<close> is not pushed at all and the only event is the terminal error.
\<close>

theorem start_follows_stream_response:
  assumes "nullish (opt_apiKey opts) (WATSONX_API_KEY e) = Some apiKey" and "apiKey \<noteq> []"
      and "nullish (opt_projectId opts) (WATSONX_PROJECT_ID e) = Some projectId" and "projectId \<noteq> []"
  shows "(\<exists>iacts cache' tok req chunks fin c post.
            getIamToken e tokenCache apiKey = (iacts, cache', Inr tok)
          \<and> generation e req = GenStream chunks fin
          \<and> fst (streamWatsonx e parse tokenCache m ctx opts)
              = iacts @ GenFetch req # Emit Start # Read c # post
          \<and> filter is_fetch post = [] \<and> Emit Start \<notin> set post)
       \<or> (Emit Start \<notin> set (fst (streamWatsonx e parse tokenCache m ctx opts))
          \<and> (\<exists>out. events (fst (streamWatsonx e parse tokenCache m ctx opts)) = [Error out]))"
proof -
  let ?T = "fst (streamWatsonx e parse tokenCache m ctx opts)"
  have key: "(case nullish (opt_apiKey opts) (WATSONX_API_KEY e) of None \<Rightarrow> [] | Some k \<Rightarrow> k) = apiKey"
    using assms(1) by simp
  from streamWatsonx_shape [of e parse tokenCache m ctx opts]
  consider (failed) pre err where
      "?T = pre @ [Emit (Error ((initial_output e m)\<lparr>stopReason := StopError, errorMessage := Some err\<rparr>))]"
      "list_all is_fetch pre"
    | (streamed) pre cache' tok req chunks fin acts st r where
      "getIamToken e tokenCache apiKey = (pre, cache', Inr tok)"
      "generation e req = GenStream chunks fin"
      "read_loop parse chunks fin [] (initial_state (initial_output e m)) = (acts, st, r)"
      "?T = pre @ GenFetch req # Emit Start # acts @ ReleaseLock # stream_tail m st r"
      "list_all is_fetch pre"
    unfolding key by blast
  then show ?thesis
  proof cases
    case failed
    then have ev: "events ?T = [Error ((initial_output e m)\<lparr>stopReason := StopError, errorMessage := Some err\<rparr>)]"
      by (simp add: events_fetches)
    then have "Emit Start \<notin> set ?T"
      by (simp add: Emit_in_set)
    then show ?thesis using ev by blast
  next
    case streamed
    obtain c rest where acts: "acts = Read c # rest"
      using read_loop_starts_with_read [OF streamed(3)] by blast
    let ?post = "rest @ ReleaseLock # stream_tail m st r"
    note rl = read_loop_frames [OF streamed(3)]
    have "Start \<notin> set (events acts)"
      using read_loop_signals [OF streamed(3)] by (rule not_Start_signals)
    then have a: "Emit Start \<notin> set ?post"
      using acts by (auto simp: Emit_in_set stream_tail_def split: option.splits)
    have b: "filter is_fetch ?post = []"
      using rl acts by (simp add: stream_tail_def split: option.splits)
    have "fst (streamWatsonx e parse tokenCache m ctx opts)
            = pre @ GenFetch req # Emit Start # Read c # ?post"
      using streamed(4) acts by simp
    then show ?thesis
      using streamed(1,2) a b by blast
  qed
qed

theorem start_follows_stream_response_witness:
  "nullish (opt_apiKey hello_options) (WATSONX_API_KEY hello_env) = Some ''0123456789abcdefXYZ''
   \<and> ''0123456789abcdefXYZ'' \<noteq> []
   \<and> nullish (opt_projectId hello_options) (WATSONX_PROJECT_ID hello_env) = Some ''p1''
   \<and> ''p1'' \<noteq> []
   \<and> (\<exists>iacts cache' tok req chunks fin c post.
         getIamToken hello_env Map.empty ''0123456789abcdefXYZ'' = (iacts, cache', Inr tok)
       \<and> generation hello_env req = GenStream chunks fin
       \<and> fst (streamWatsonx hello_env hello_parser Map.empty granite say_hi hello_options)
           = iacts @ GenFetch req # Emit Start # Read c # post
       \<and> filter is_fetch post = [] \<and> Emit Start \<notin> set post)"
proof -
  have a: "''0123456789abcdefXYZ'' \<noteq> []" "''p1'' \<noteq> []"
    by simp_all
  have b: "Emit Start \<in> set (fst (streamWatsonx hello_env hello_parser Map.empty granite say_hi
                                       hello_options))"
    by (simp add: hello_run)
  show ?thesis
    using start_follows_stream_response
            [OF hello_valid(1) a(1) hello_valid(2) a(2), of Map.empty hello_parser granite say_hi]
          hello_valid a b
    by blast
qed


subsection \<open>Deltas\<close>

lemma deltas_simps [simp]:
  "deltas [] = []"
  "deltas (xs @ ys) = deltas xs @ deltas ys"
  "deltas (TextDelta i d # xs) = d # deltas xs"
  "deltas (TextStart i # xs) = deltas xs"
  "deltas (Start # xs) = deltas xs"
  "deltas (TextEnd i t # xs) = deltas xs"
  "deltas (Done out # xs) = deltas xs"
  "deltas (Error out # xs) = deltas xs"
  by (simp_all add: deltas_def map_filter_append)

lemma generated_texts_Cons:
  "generated_texts (f # fs) =
     (case frame_text f of None \<Rightarrow> generated_texts fs | Some t \<Rightarrow> t # generated_texts fs)"
  by (cases "frame_text f") (simp_all add: generated_texts_def)

lemma generated_texts_Nil [simp]: "generated_texts [] = []"
  by (simp add: generated_texts_def)

lemma on_generated_text_extends:
  assumes "on_generated_text res st = (evs, st')"
      and "generated_text r = Some t" and "res = Some r"
      and "prefix (fullText st) t"
  shows "fullText st' = t \<and> fullText st @ concat (deltas evs) = t"
proof -
  obtain s where t: "t = fullText st @ s"
    using assms(4) by (auto simp: prefix_def)
  show ?thesis
    using assms(1-3) t
    by (auto simp: on_generated_text_def Let_def split: if_splits)
qed

lemma on_generated_text_absent:
  assumes "on_generated_text res st = (evs, st')"
      and "(case res of None \<Rightarrow> None | Some r \<Rightarrow> generated_text r) = None"
  shows "st' = st \<and> evs = []"
  using assms by (simp add: on_generated_text_def)

lemma process_frame_extends:
  assumes "process_frame f st = (evs, st')"
  shows "(case frame_text f of
            None \<Rightarrow> fullText st' = fullText st \<and> deltas evs = []
          | Some t \<Rightarrow> prefix (fullText st) t \<longrightarrow>
                       fullText st' = t \<and> fullText st @ concat (deltas evs) = t)"
proof -
  obtain evs1 st1 where g: "on_generated_text (first_result f) st = (evs1, st1)"
    by (cases "on_generated_text (first_result f) st")
  have e: "evs = evs1" "fullText st' = fullText st1"
    using assms g by (auto simp: process_frame_def Let_def)
  show ?thesis
  proof (cases "frame_text f")
    case None
    then have "(case first_result f of None \<Rightarrow> None | Some r \<Rightarrow> generated_text r) = None"
      by (simp add: frame_text_def)
    from on_generated_text_absent [OF g this] e None show ?thesis by simp
  next
    case (Some t)
    then obtain r where r: "first_result f = Some r" "generated_text r = Some t"
      by (auto simp: frame_text_def split: option.splits)
    show ?thesis
      using on_generated_text_extends [OF g r(2) r(1)] e Some by simp
  qed
qed

lemma process_frames_extends:
  assumes "process_frames fs st = (evs, st')"
      and "extends_from (fullText st) (generated_texts fs)"
  shows "fullText st' = fullText st @ concat (deltas evs)"
  using assms
proof (induction fs arbitrary: st evs st')
  case Nil
  then show ?case by simp
next
  case (Cons f fs)
  obtain evs1 st1 where a: "process_frame f st = (evs1, st1)"
    by (cases "process_frame f st")
  obtain evs2 st2 where b: "process_frames fs st1 = (evs2, st2)"
    by (cases "process_frames fs st1")
  have c: "evs = evs1 @ evs2" "st' = st2"
    using Cons.prems(1) a b by simp_all
  note pf = process_frame_extends [OF a]
  show ?case
  proof (cases "frame_text f")
    case None
    then have 1: "fullText st1 = fullText st" "deltas evs1 = []"
      using pf by simp_all
    have "extends_from (fullText st1) (generated_texts fs)"
      using Cons.prems(2) None 1 by (simp add: generated_texts_Cons)
    from Cons.IH [OF b this] show ?thesis
      using c 1 None by (simp add: generated_texts_Cons)
  next
    case (Some t)
    then have p: "prefix (fullText st) t" "extends_from t (generated_texts fs)"
      using Cons.prems(2) by (simp_all add: generated_texts_Cons)
    then have 1: "fullText st1 = t" "fullText st @ concat (deltas evs1) = t"
      using pf Some by simp_all
    have "extends_from (fullText st1) (generated_texts fs)"
      using p 1 by simp
    from Cons.IH [OF b this] show ?thesis
      using c 1 Some by (simp add: generated_texts_Cons)
  qed
qed

lemma last_Cons_Cons: "last (a # b # xs) = last (b # xs)"
  by simp

lemma process_frames_last:
  assumes "process_frames fs st = (evs, st')"
      and "extends_from (fullText st) (generated_texts fs)"
  shows "fullText st' = last (fullText st # generated_texts fs)"
  using assms
proof (induction fs arbitrary: st evs st')
  case Nil
  then show ?case by simp
next
  case (Cons f fs)
  obtain evs1 st1 where a: "process_frame f st = (evs1, st1)"
    by (cases "process_frame f st")
  obtain evs2 st2 where b: "process_frames fs st1 = (evs2, st2)"
    by (cases "process_frames fs st1")
  have c: "st' = st2"
    using Cons.prems(1) a b by simp
  note pf = process_frame_extends [OF a]
  show ?case
  proof (cases "frame_text f")
    case None
    then have 1: "fullText st1 = fullText st"
      using pf by simp
    have "extends_from (fullText st1) (generated_texts fs)"
      using Cons.prems(2) None 1 by (simp add: generated_texts_Cons)
    from Cons.IH [OF b this] have "fullText st2 = last (fullText st1 # generated_texts fs)" .
    then show ?thesis
      using c 1 None by (simp only: generated_texts_Cons option.case)
  next
    case (Some t)
    then have p: "prefix (fullText st) t" "extends_from t (generated_texts fs)"
      using Cons.prems(2) by (simp_all add: generated_texts_Cons)
    then have 1: "fullText st1 = t"
      using pf Some by simp
    have "extends_from (fullText st1) (generated_texts fs)"
      using p 1 by simp
    from Cons.IH [OF b this] have "fullText st2 = last (fullText st1 # generated_texts fs)" .
    then show ?thesis
      using c 1 Some by (simp only: generated_texts_Cons option.case last_Cons_Cons)
  qed
qed

text \<open>Once text is started the text seen is not empty.\<close>

lemma on_generated_text_started:
  assumes "on_generated_text res st = (evs, st')"
      and "startedText st \<longrightarrow> fullText st \<noteq> []"
  shows "startedText st' \<longrightarrow> fullText st' \<noteq> []"
  using assms
  by (auto simp: on_generated_text_def Let_def split: option.splits if_splits)

lemma process_frame_started:
  assumes "process_frame f st = (evs, st')"
      and "startedText st \<longrightarrow> fullText st \<noteq> []"
  shows "startedText st' \<longrightarrow> fullText st' \<noteq> []"
proof -
  obtain evs1 st1 where g: "on_generated_text (first_result f) st = (evs1, st1)"
    by (cases "on_generated_text (first_result f) st")
  have "fullText st' = fullText st1" "startedText st' = startedText st1"
    using assms(1) g by (auto simp: process_frame_def Let_def)
  then show ?thesis
    using on_generated_text_started [OF g assms(2)] by simp
qed

lemma process_frames_started:
  assumes "process_frames fs st = (evs, st')"
      and "startedText st \<longrightarrow> fullText st \<noteq> []"
  shows "startedText st' \<longrightarrow> fullText st' \<noteq> []"
  using assms
proof (induction fs arbitrary: st evs st')
  case Nil
  then show ?case by simp
next
  case (Cons f fs)
  obtain evs1 st1 where a: "process_frame f st = (evs1, st1)"
    by (cases "process_frame f st")
  obtain evs2 st2 where b: "process_frames fs st1 = (evs2, st2)"
    by (cases "process_frames fs st1")
  have c: "st' = st2"
    using Cons.prems(1) a b by simp
  from Cons.IH [OF b process_frame_started [OF a Cons.prems(2)]] c show ?case by simp
qed

lemma chunks_read_simps [simp]:
  "chunks_read [] = []"
  "chunks_read (xs @ ys) = chunks_read xs @ chunks_read ys"
  "chunks_read (Emit ev # xs) = chunks_read xs"
  "chunks_read (ReleaseLock # xs) = chunks_read xs"
  "chunks_read (IamFetch k # xs) = chunks_read xs"
  "chunks_read (GenFetch q # xs) = chunks_read xs"
  "chunks_read (Read None # xs) = chunks_read xs"
  "chunks_read (Read (Some x) # xs) = x # chunks_read xs"
  by (simp_all add: chunks_read_def map_filter_append)

lemma chunks_read_fetches: "list_all is_fetch pre \<Longrightarrow> chunks_read pre = []"
proof (induction pre)
  case Nil
  show ?case by simp
next
  case (Cons a pre)
  then show ?case by (cases a) simp_all
qed

lemma chunks_read_tail [simp]: "chunks_read (stream_tail m st r) = []"
  by (simp add: stream_tail_def split: option.splits)

text \<open>
  C1: when the \<open>generated_text\<close> of each frame of the body extends that of the frame
  before it, the \<open>text_delta\<close> values of the run, concatenated in the order pushed,
  are the content of the \<open>text_end\<close> event, and that content is the final cumulative
  text: the \<open>generated_text\<close> of the last frame that carries one (there is such a
  frame, and the content is not empty).
\<close>

theorem deltas_concat_is_text_end:
  assumes "extends_from []
             (generated_texts (frames parse
                (chunks_read (fst (streamWatsonx e parse tokenCache m ctx opts)))))"
      and "Emit (TextEnd i txt) \<in> set (fst (streamWatsonx e parse tokenCache m ctx opts))"
  shows "concat (deltas (events (fst (streamWatsonx e parse tokenCache m ctx opts)))) = txt
       \<and> txt = last ([] # generated_texts (frames parse
                  (chunks_read (fst (streamWatsonx e parse tokenCache m ctx opts)))))
       \<and> generated_texts (frames parse
             (chunks_read (fst (streamWatsonx e parse tokenCache m ctx opts)))) \<noteq> []
       \<and> txt \<noteq> []"
proof -
  let ?T = "fst (streamWatsonx e parse tokenCache m ctx opts)"
  from streamWatsonx_shape [of e parse tokenCache m ctx opts]
  consider (failed) pre err where
      "?T = pre @ [Emit (Error ((initial_output e m)\<lparr>stopReason := StopError, errorMessage := Some err\<rparr>))]"
      "list_all is_fetch pre"
    | (streamed) pre req chunks fin acts st r where
      "read_loop parse chunks fin [] (initial_state (initial_output e m)) = (acts, st, r)"
      "?T = pre @ GenFetch req # Emit Start # acts @ ReleaseLock # stream_tail m st r"
      "list_all is_fetch pre"
    by blast
  then show ?thesis
  proof cases
    case failed
    then have "events ?T = [Error ((initial_output e m)\<lparr>stopReason := StopError, errorMessage := Some err\<rparr>)]"
      by (simp add: events_fetches)
    then show ?thesis using assms(2) by (simp add: Emit_in_set)
  next
    case streamed
    let ?fs = "frames_from parse [] chunks"
    note rl = read_loop_frames [OF streamed(1)]
    have sig: "list_all is_text_signal (events acts)"
      using read_loop_signals [OF streamed(1)] .
    have ev: "events ?T = Start # events acts @ events (stream_tail m st r)"
      using streamed by (simp add: events_fetches)
    have "TextEnd i txt \<in> set (events ?T)"
      using assms(2) by (simp add: Emit_in_set)
    moreover have "TextEnd i txt \<notin> set (events acts)"
      using sig by (auto simp: list_all_iff)
    ultimately have te: "TextEnd i txt \<in> set (events (stream_tail m st r))"
      using ev by simp
    then have tx: "txt = fullText st" and started: "startedText st"
      by (auto simp: stream_tail_def split: option.splits if_splits)
    have dt: "deltas (events (stream_tail m st r)) = []"
      by (simp add: stream_tail_def split: option.splits)
    have cr: "chunks_read ?T = chunks"
      using streamed rl by (simp add: chunks_read_fetches)
    have fr: "frames parse (chunks_read ?T) = ?fs"
      using cr by (simp add: frames_def)
    have pf: "process_frames ?fs (initial_state (initial_output e m)) = (events acts, st)"
      using rl by simp
    have ext: "extends_from (fullText (initial_state (initial_output e m))) (generated_texts ?fs)"
      using assms(1) cr by (simp add: frames_def initial_state_def)
    have "fullText st = concat (deltas (events acts))"
      using process_frames_extends [OF pf ext] by (simp add: initial_state_def)
    then have 1: "concat (deltas (events ?T)) = txt"
      using ev dt tx by simp
    have 2: "txt = last ([] # generated_texts ?fs)"
      using process_frames_last [OF pf ext] tx by (simp only: initial_state_def reader_state.simps)
    have "startedText (initial_state (initial_output e m))
            \<longrightarrow> fullText (initial_state (initial_output e m)) \<noteq> []"
      by (simp add: initial_state_def)
    from process_frames_started [OF pf this] started tx
    have 3: "txt \<noteq> []"
      by simp
    have 4: "generated_texts ?fs \<noteq> []"
    proof
      assume "generated_texts ?fs = []"
      then have "txt = []" using 2 by simp
      then show False using 3 by simp
    qed
    show ?thesis
      unfolding fr using 1 2 3 4 by blast
  qed
qed

theorem deltas_concat_is_text_end_witness:
  "extends_from []
     (generated_texts (frames hello_parser
        (chunks_read (fst (streamWatsonx hello_env hello_parser Map.empty granite say_hi hello_options)))))
   \<and> Emit (TextEnd 0 ''Hello!'')
        \<in> set (fst (streamWatsonx hello_env hello_parser Map.empty granite say_hi hello_options))
   \<and> deltas (events (fst (streamWatsonx hello_env hello_parser Map.empty granite say_hi hello_options)))
        = [''Hel'', ''lo'', ''!'']
   \<and> concat (deltas (events (fst (streamWatsonx hello_env hello_parser Map.empty granite say_hi
                                      hello_options)))) = ''Hello!''
   \<and> generated_texts (frames hello_parser
        (chunks_read (fst (streamWatsonx hello_env hello_parser Map.empty granite say_hi hello_options))))
        = [''Hel'', ''Hello'', ''Hello!'']"
proof -
  let ?T = "fst (streamWatsonx hello_env hello_parser Map.empty granite say_hi hello_options)"
  have cr: "chunks_read ?T = [hello_chunk1, hello_chunk2, hello_chunk3]"
    by (simp add: hello_run)
  have a: "extends_from [] (generated_texts (frames hello_parser (chunks_read ?T)))"
    by (simp add: cr hello_frames generated_texts_Cons frame_text_def first_result_def frame_def)
  have b: "Emit (TextEnd 0 ''Hello!'') \<in> set ?T"
    by (simp add: hello_run)
  have d: "deltas (events ?T) = [''Hel'', ''lo'', ''!'']"
    by (simp add: hello_run)
  have g: "generated_texts (frames hello_parser (chunks_read ?T)) = [''Hel'', ''Hello'', ''Hello!'']"
    by (simp add: cr hello_frames generated_texts_Cons frame_text_def first_result_def frame_def)
  show ?thesis
    using deltas_concat_is_text_end [OF a b] a b d g by simp
qed


subsection \<open>Usage and cost\<close>

lemma final_usage_fields:
  "usage_totalTokens (usage (final_usage m out)) = usage_input (usage out) + usage_output (usage out)"
  "usage_input (usage (final_usage m out)) = usage_input (usage out)"
  "usage_output (usage (final_usage m out)) = usage_output (usage out)"
  "cost_input (usage_cost (usage (final_usage m out)))
     = (real_of_int (usage_input (usage out)) / 1000000)
       * (case model_cost m of None \<Rightarrow> 0 | Some c \<Rightarrow> price_input c)"
  "cost_output (usage_cost (usage (final_usage m out)))
     = (real_of_int (usage_output (usage out)) / 1000000)
       * (case model_cost m of None \<Rightarrow> 0 | Some c \<Rightarrow> price_output c)"
  "cost_total (usage_cost (usage (final_usage m out)))
     = (real_of_int (usage_input (usage out)) / 1000000)
       * (case model_cost m of None \<Rightarrow> 0 | Some c \<Rightarrow> price_input c)
     + (real_of_int (usage_output (usage out)) / 1000000)
       * (case model_cost m of None \<Rightarrow> 0 | Some c \<Rightarrow> price_output c)"
  by (simp_all add: final_usage_def Let_def split: option.splits)

text \<open>
  C9: the message of a \<open>done\<close> event has \<open>totalTokens = input + output\<close>,
  \<open>cost.input = (input / 1,000,000) \<times> input price\<close>,
  \<open>cost.output = (output / 1,000,000) \<times> output price\<close> and
  \<open>cost.total = cost.input + cost.output\<close>, the prices being 0 when the model has none.
\<close>

theorem done_usage_and_cost:
  assumes "Emit (Done msg) \<in> set (fst (streamWatsonx e parse tokenCache m ctx opts))"
  shows "usage_totalTokens (usage msg) = usage_input (usage msg) + usage_output (usage msg)
       \<and> cost_input (usage_cost (usage msg))
           = (real_of_int (usage_input (usage msg)) / 1000000)
             * (case model_cost m of None \<Rightarrow> 0 | Some c \<Rightarrow> price_input c)
       \<and> cost_output (usage_cost (usage msg))
           = (real_of_int (usage_output (usage msg)) / 1000000)
             * (case model_cost m of None \<Rightarrow> 0 | Some c \<Rightarrow> price_output c)
       \<and> cost_total (usage_cost (usage msg))
           = cost_input (usage_cost (usage msg)) + cost_output (usage_cost (usage msg))"
proof -
  let ?T = "fst (streamWatsonx e parse tokenCache m ctx opts)"
  from streamWatsonx_shape [of e parse tokenCache m ctx opts]
  consider (failed) pre err where
      "?T = pre @ [Emit (Error ((initial_output e m)\<lparr>stopReason := StopError, errorMessage := Some err\<rparr>))]"
      "list_all is_fetch pre"
    | (streamed) pre req chunks fin acts st r where
      "read_loop parse chunks fin [] (initial_state (initial_output e m)) = (acts, st, r)"
      "?T = pre @ GenFetch req # Emit Start # acts @ ReleaseLock # stream_tail m st r"
      "list_all is_fetch pre"
    by blast
  then show ?thesis
  proof cases
    case failed
    then have "events ?T = [Error ((initial_output e m)\<lparr>stopReason := StopError, errorMessage := Some err\<rparr>)]"
      by (simp add: events_fetches)
    then show ?thesis using assms by (simp add: Emit_in_set)
  next
    case streamed
    have sig: "list_all is_text_signal (events acts)"
      using read_loop_signals [OF streamed(1)] .
    have ev: "events ?T = Start # events acts @ events (stream_tail m st r)"
      using streamed by (simp add: events_fetches)
    have "Done msg \<in> set (events ?T)"
      using assms by (simp add: Emit_in_set)
    moreover have "Done msg \<notin> set (events acts)"
      using sig by (auto simp: list_all_iff)
    ultimately have "Done msg \<in> set (events (stream_tail m st r))"
      using ev by simp
    then have "msg = final_usage m (output_msg st)"
      by (auto simp: stream_tail_def split: option.splits if_splits)
    then show ?thesis
      by (simp add: final_usage_fields)
  qed
qed

text \<open>
  The specification's example: 1,000,000 input and 500,000 output tokens at 0.05 and
  0.08 per million cost 0.05, 0.04 and 0.09 in total.
\<close>

theorem done_usage_and_cost_witness:
  "Emit (Done hello_message)
     \<in> set (fst (streamWatsonx hello_env hello_parser Map.empty granite say_hi hello_options))
   \<and> model_cost granite = Some \<lparr>price_input = 5 / 100, price_output = 8 / 100,
                                 price_cacheRead = 0, price_cacheWrite = 0\<rparr>
   \<and> usage_input (usage hello_message) = 1000000
   \<and> usage_output (usage hello_message) = 500000
   \<and> usage_totalTokens (usage hello_message) = 1500000
   \<and> cost_input (usage_cost (usage hello_message)) = 5 / 100
   \<and> cost_output (usage_cost (usage hello_message)) = 4 / 100
   \<and> cost_total (usage_cost (usage hello_message)) = 9 / 100"
proof -
  have a: "Emit (Done hello_message)
     \<in> set (fst (streamWatsonx hello_env hello_parser Map.empty granite say_hi hello_options))"
    by (simp add: hello_run)
  have b: "usage_input (usage hello_message) = 1000000"
          "usage_output (usage hello_message) = 500000"
    by (simp_all add: hello_message_def)
  have c: "model_cost granite = Some \<lparr>price_input = 5 / 100, price_output = 8 / 100,
                                       price_cacheRead = 0, price_cacheWrite = 0\<rparr>"
    by (simp add: granite_def)
  show ?thesis
    using done_usage_and_cost [OF a] a b c by simp
qed

subsection \<open>The prompt\<close>

lemma map_filter_text_of: "List.map_filter text_of cs = [t. Text t \<leftarrow> cs]"
proof (induction cs)
  case Nil
  show ?case by simp
next
  case (Cons c cs)
  then show ?case by (cases c) simp_all
qed

lemma push_message_typed:
  "typed_turn msg \<Longrightarrow> push_message msg parts = Inr (parts @ [spec_segment msg])"
  by (auto simp: typed_turn_def push_message_def spec_segment_def spec_text_def joined_text_def
        map_filter_text_of split: role.splits content.splits)

lemma push_messages_typed:
  "list_all typed_turn msgs \<Longrightarrow> push_messages msgs parts = Inr (parts @ map spec_segment msgs)"
  by (induction msgs arbitrary: parts) (simp_all add: push_message_typed)

text \<open>
  C4, as stated, fails: an assistant turn whose content is a plain string makes
  \<open>buildWatsonxPrompt\<close> throw, since \<open>.filter\<close> is called on the string.
\<close>

theorem assistant_plain_string_throws:
  "buildWatsonxPrompt
     \<lparr>systemPrompt = None,
      messages = [\<lparr>msg_role = User, msg_content = Plain ''hi''\<rparr>,
                  \<lparr>msg_role = Assistant, msg_content = Plain ''hello''\<rparr>]\<rparr>
   = Inl NotAFunction"
  by (simp add: buildWatsonxPrompt_def system_parts_def push_message_def)

text \<open>
  C4, amended: for a context whose messages are user turns (content a plain string or a
  list of blocks) and assistant turns whose content is a list of blocks,
  \<open>buildWatsonxPrompt\<close> returns the prompt made of the system segment if there is one,
  the segment of each message in the original order, and the assistant priming marker,
  joined by newlines.
\<close>

theorem prompt_of_typed_turns:
  assumes "list_all typed_turn (messages ctx)"
  shows "buildWatsonxPrompt ctx =
           Inr (js_join [newline]
                  (system_parts ctx @ map spec_segment (messages ctx)
                     @ [''<|assistant|>'' @ [newline]]))"
  using assms by (simp add: buildWatsonxPrompt_def push_messages_typed)

theorem prompt_of_typed_turns_witness:
  "list_all typed_turn (messages three_turns)
   \<and> buildWatsonxPrompt three_turns =
       Inr (''<|system|>'' @ [newline] @ ''Be brief.'' @ [newline] @ ''<|end|>'' @ [newline]
            @ ''<|user|>'' @ [newline] @ ''hi'' @ [newline] @ ''<|end|>'' @ [newline]
            @ ''<|assistant|>'' @ [newline] @ ''a'' @ [newline] @ ''b'' @ [newline] @ ''<|end|>''
            @ [newline]
            @ ''<|user|>'' @ [newline] @ ''c'' @ [newline] @ ''<|end|>'' @ [newline]
            @ ''<|assistant|>'' @ [newline])"
proof -
  have a: "list_all typed_turn (messages three_turns)"
    by (simp add: three_turns_def typed_turn_def)
  show ?thesis
    using prompt_of_typed_turns [OF a] a
    by (simp add: three_turns_def system_parts_def trim_def is_space_def spec_segment_def
          spec_text_def)
qed


end
